theory Spec2Isabelle
  imports Main
begin

section \<open>Data model of s3-glacier-restore.py\<close>

text \<open>
  The four enumerations of the script. \<open>__str__\<close> returns the enum value, which is what
  the script passes to the provider.
\<close>

datatype Operation = OpList | OpRestore | OpTransit | OpCheckRestore

datatype LogLevel = Debug | Info | Warning | Error | Critical

fun to_val :: "LogLevel \<Rightarrow> int" where
  "to_val Debug = 10"
| "to_val Info = 20"
| "to_val Warning = 30"
| "to_val Error = 40"
| "to_val Critical = 50"

datatype Tier = Expedited | Standard | Bulk

fun Tier_str :: "Tier \<Rightarrow> string" where
  "Tier_str Expedited = ''Expedited''"
| "Tier_str Standard = ''Standard''"
| "Tier_str Bulk = ''Bulk''"

datatype StorageClassArg =
  StandardClass | StandardInfrequentAccess | OneZoneInfrequentAccess | IntelligentTiering

fun StorageClass_str :: "StorageClassArg \<Rightarrow> string" where
  "StorageClass_str StandardClass = ''STANDARD''"
| "StorageClass_str StandardInfrequentAccess = ''STANDARD_IA''"
| "StorageClass_str OneZoneInfrequentAccess = ''ONEZONE_IA''"
| "StorageClass_str IntelligentTiering = ''INTELLIGENT_TIERING''"

text \<open>
  Exceptions are values. \<open>ClientError code\<close> is botocore's \<open>ClientError\<close> with
  \<open>e.response["Error"]["Code"] = code\<close>; it is the only exception the script catches.
  \<open>OtherError\<close> stands for any exception of the SDK that is not a \<open>ClientError\<close>.
\<close>

datatype exn =
  ClientError string
| AssertionError string
| KeyError string
| ValueError string
| OtherError string

text \<open>
  The response dictionaries, restricted to the entries the script reads. An entry the
  script tests with \<open>in\<close> before reading is optional.
\<close>

record s3_object =
  Key :: string
  StorageClass :: string

record list_rsp =
  Contents :: "s3_object list option"
  NextContinuationToken :: "string option"

record head_rsp =
  Restore :: "string option"

subsection \<open>The environment: provider, logger, clock\<close>

text \<open>
  Every effect of the script is recorded, in order, in a trace: the provider calls with
  their arguments, the calls of the logger, and the calls of \<open>time.sleep\<close>.
\<close>

datatype log_arg = Msg string | Exn exn

datatype event =
  ListObjectsV2 string string "string option"
| RestoreObject string string int string
| CopyObject string string string
| HeadObject string string
| Sleep int
| SetLevel int
| Log LogLevel log_arg

text \<open>
  The provider is a deterministic state machine over a state \<open>'s\<close> the script never sees:
  each call returns a response or raises, and moves the state. \<open>time_passes\<close> is what a
  sleep of the given number of seconds does to the provider's state.
\<close>

record 's env =
  list_objects_v2 :: "string \<Rightarrow> string \<Rightarrow> string option \<Rightarrow> 's \<Rightarrow> (exn + list_rsp) \<times> 's"
  restore_object :: "string \<Rightarrow> string \<Rightarrow> int \<Rightarrow> string \<Rightarrow> 's \<Rightarrow> (exn + unit) \<times> 's"
  copy_object :: "string \<Rightarrow> string \<Rightarrow> string \<Rightarrow> 's \<Rightarrow> (exn + unit) \<times> 's"
  head_object :: "string \<Rightarrow> string \<Rightarrow> 's \<Rightarrow> (exn + head_rsp) \<times> 's"
  time_passes :: "int \<Rightarrow> 's \<Rightarrow> 's"

record 's world =
  pstate :: 's
  trace :: "event list"

definition logger :: "LogLevel \<Rightarrow> log_arg \<Rightarrow> 's world \<Rightarrow> 's world" where
  "logger lvl a w = w\<lparr>trace := trace w @ [Log lvl a]\<rparr>"

definition call_list_objects_v2 ::
  "'s env \<Rightarrow> string \<Rightarrow> string \<Rightarrow> string option \<Rightarrow> 's world \<Rightarrow> (exn + list_rsp) \<times> 's world" where
  "call_list_objects_v2 s3 bucket prefix token w =
     (case list_objects_v2 s3 bucket prefix token (pstate w) of
        (r, s') \<Rightarrow> (r, \<lparr>pstate = s', trace = trace w @ [ListObjectsV2 bucket prefix token]\<rparr>))"

definition call_restore_object ::
  "'s env \<Rightarrow> string \<Rightarrow> string \<Rightarrow> int \<Rightarrow> string \<Rightarrow> 's world \<Rightarrow> (exn + unit) \<times> 's world" where
  "call_restore_object s3 bucket key days tier w =
     (case restore_object s3 bucket key days tier (pstate w) of
        (r, s') \<Rightarrow> (r, \<lparr>pstate = s', trace = trace w @ [RestoreObject bucket key days tier]\<rparr>))"

definition call_copy_object ::
  "'s env \<Rightarrow> string \<Rightarrow> string \<Rightarrow> string \<Rightarrow> 's world \<Rightarrow> (exn + unit) \<times> 's world" where
  "call_copy_object s3 bucket key storage_class w =
     (case copy_object s3 bucket key storage_class (pstate w) of
        (r, s') \<Rightarrow> (r, \<lparr>pstate = s', trace = trace w @ [CopyObject bucket key storage_class]\<rparr>))"

definition call_head_object ::
  "'s env \<Rightarrow> string \<Rightarrow> string \<Rightarrow> 's world \<Rightarrow> (exn + head_rsp) \<times> 's world" where
  "call_head_object s3 bucket key w =
     (case head_object s3 bucket key (pstate w) of
        (r, s') \<Rightarrow> (r, \<lparr>pstate = s', trace = trace w @ [HeadObject bucket key]\<rparr>))"

text \<open>\<open>time.sleep\<close> raises \<open>ValueError\<close> on a negative length.\<close>

definition time_sleep :: "'s env \<Rightarrow> int \<Rightarrow> 's world \<Rightarrow> (exn + unit) \<times> 's world" where
  "time_sleep s3 seconds w =
     (if seconds < 0
      then (Inl (ValueError ''sleep length must be non-negative''),
            w\<lparr>trace := trace w @ [Sleep seconds]\<rparr>)
      else (Inr (),
            \<lparr>pstate = time_passes s3 seconds (pstate w), trace = trace w @ [Sleep seconds]\<rparr>))"

definition quoted :: "string \<Rightarrow> string" where
  "quoted s = CHR 0x22 # s @ [CHR 0x22]"

section \<open>Restore Requester: \<open>restore_glacier_objects\<close>\<close>

definition impl ::
  "'s env \<Rightarrow> string \<Rightarrow> string \<Rightarrow> int \<Rightarrow> Tier \<Rightarrow> 's world \<Rightarrow> (exn + unit) \<times> 's world" where
  "impl s3 bucket key days tier w =
     (case call_restore_object s3 bucket key days (Tier_str tier)
             (logger Debug (Msg (''Restoring '' @ quoted key)) w) of
        (Inl e, w') \<Rightarrow> (Inl e, w')
      | (Inr u, w') \<Rightarrow>
          (Inr (), logger Debug (Msg (''Successfully sent Restore request for '' @ quoted key)) w'))"

text \<open>The loop of the \<open>if\<close> branch (lines 141 to 151): every call is inside \<open>try\<close>.\<close>

fun restore_catching ::
  "'s env \<Rightarrow> string \<Rightarrow> string list \<Rightarrow> int \<Rightarrow> Tier \<Rightarrow> bool \<Rightarrow> 's world \<Rightarrow> (exn + unit) \<times> 's world" where
  "restore_catching s3 bucket [] days tier continue_on_other_errors w = (Inr (), w)"
| "restore_catching s3 bucket (key # keys) days tier continue_on_other_errors w =
     (case impl s3 bucket key days tier w of
        (Inr u, w') \<Rightarrow> restore_catching s3 bucket keys days tier continue_on_other_errors w'
      | (Inl (ClientError code), w') \<Rightarrow>
          if code = ''RestoreAlreadyInProgress''
          then restore_catching s3 bucket keys days tier continue_on_other_errors
                 (logger Warning (Exn (ClientError code)) w')
          else if continue_on_other_errors
          then restore_catching s3 bucket keys days tier continue_on_other_errors
                 (logger Warning
                    (Msg ''Continuing because `continue_on_other_errors` is set to `True`'')
                    (logger Error (Exn (ClientError code)) w'))
          else (Inl (ClientError code), w')
      | (Inl e, w') \<Rightarrow> (Inl e, w'))"

text \<open>The loop of the \<open>else\<close> branch (lines 153 and 154): no \<open>try\<close>.\<close>

fun restore_uncaught ::
  "'s env \<Rightarrow> string \<Rightarrow> string list \<Rightarrow> int \<Rightarrow> Tier \<Rightarrow> 's world \<Rightarrow> (exn + unit) \<times> 's world" where
  "restore_uncaught s3 bucket [] days tier w = (Inr (), w)"
| "restore_uncaught s3 bucket (key # keys) days tier w =
     (case impl s3 bucket key days tier w of
        (Inl e, w') \<Rightarrow> (Inl e, w')
      | (Inr u, w') \<Rightarrow> restore_uncaught s3 bucket keys days tier w')"

definition restore_glacier_objects ::
  "'s env \<Rightarrow> string \<Rightarrow> string list \<Rightarrow> int \<Rightarrow> Tier \<Rightarrow> bool \<Rightarrow> bool \<Rightarrow> 's world
     \<Rightarrow> (exn + unit) \<times> 's world" where
  "restore_glacier_objects s3 bucket keys days tier
       continue_on_restore_already_in_progress continue_on_other_errors w =
     (if continue_on_restore_already_in_progress
      then restore_catching s3 bucket keys days tier continue_on_other_errors w
      else restore_uncaught s3 bucket keys days tier w)"

section \<open>Object Enumerator: \<open>list_objects\<close>\<close>

text \<open>
  The inner \<open>for obj in rsp["Contents"]\<close> loop (lines 98 to 106), appending to \<open>keys\<close>.
\<close>

fun collect ::
  "bool \<Rightarrow> bool \<Rightarrow> s3_object list \<Rightarrow> string list \<Rightarrow> 's world \<Rightarrow> string list \<times> 's world" where
  "collect glacier print [] keys w = (keys, w)"
| "collect glacier print (obj # objs) keys w =
     (if glacier
      then (if StorageClass obj = ''GLACIER''
            then collect glacier print objs (keys @ [Key obj])
                   (if print then logger Debug (Msg (Key obj)) w else w)
            else collect glacier print objs keys w)
      else collect glacier print objs (keys @ [Key obj])
             (if print then logger Debug (Msg (Key obj)) w else w))"

text \<open>
  The \<open>while is_continuing\<close> loop (lines 91 to 112). \<open>kwargs\<close> holds at most the entry
  \<open>ContinuationToken\<close>. The loop runs for as long as the provider hands out tokens, so it
  is a partial function: \<open>None\<close> is the run that never returns. (The function builds its
  own client at line 85; the model has one provider.)
\<close>

partial_function (option) list_objects_loop ::
  "'s env \<Rightarrow> string \<Rightarrow> string \<Rightarrow> bool \<Rightarrow> bool \<Rightarrow> string option \<Rightarrow> string list \<Rightarrow> 's world
     \<Rightarrow> ((exn + string list) \<times> 's world) option" where
  "list_objects_loop s3 bucket prefix glacier print kwargs keys w =
     (case call_list_objects_v2 s3 bucket prefix kwargs w of
        (Inl e, w') \<Rightarrow> Some (Inl e, w')
      | (Inr rsp, w') \<Rightarrow>
          (case (case Contents rsp of
                   None \<Rightarrow> (keys, w')
                 | Some objs \<Rightarrow> collect glacier print objs keys w') of
             (keys', w'') \<Rightarrow>
               (case NextContinuationToken rsp of
                  Some continuation_token \<Rightarrow>
                    list_objects_loop s3 bucket prefix glacier print
                      (Some continuation_token) keys' w''
                | None \<Rightarrow> Some (Inr keys', w''))))"

definition list_objects ::
  "'s env \<Rightarrow> string \<Rightarrow> string \<Rightarrow> bool \<Rightarrow> bool \<Rightarrow> 's world
     \<Rightarrow> ((exn + string list) \<times> 's world) option" where
  "list_objects s3 bucket prefix glacier print w =
     list_objects_loop s3 bucket prefix glacier print None [] w"

section \<open>Transition Poller: \<open>transit_glacier_objects\<close>\<close>

text \<open>
  The body of the \<open>try\<close> (lines 170 to 191) for one key. \<open>rsp["Contents"]\<close> raises
  \<open>KeyError\<close> when the response has no such entry; the \<open>assert\<close> fails when the list
  has not exactly one element.
\<close>

definition transit_try ::
  "'s env \<Rightarrow> string \<Rightarrow> string \<Rightarrow> StorageClassArg \<Rightarrow> 's world \<Rightarrow> (exn + unit) \<times> 's world" where
  "transit_try s3 bucket key storage_class w =
     (case call_list_objects_v2 s3 bucket key None w of
        (Inl e, w1) \<Rightarrow> (Inl e, w1)
      | (Inr rsp, w1) \<Rightarrow>
          (case Contents rsp of
             None \<Rightarrow> (Inl (KeyError ''Contents''), w1)
           | Some [obj] \<Rightarrow>
               if StorageClass obj \<noteq> ''GLACIER''
               then (Inr (),
                     logger Debug
                       (Msg (''Skipping '' @ quoted key
                             @ '' because it it no longer a GLACIER object'')) w1)
               else (case call_copy_object s3 bucket key (StorageClass_str storage_class)
                            (logger Debug
                               (Msg (''Transiting '' @ quoted key @ '' back to storage class [''
                                     @ StorageClass_str storage_class @ '']'')) w1) of
                       (Inl e, w2) \<Rightarrow> (Inl e, w2)
                     | (Inr u, w2) \<Rightarrow>
                         (Inr (),
                          logger Debug (Msg (''Transiting '' @ quoted key @ '' successful!'')) w2))
           | Some objs \<Rightarrow> (Inl (AssertionError []), w1)))"

text \<open>
  One iteration of \<open>for key in keys\<close> with its \<open>except\<close> clause (lines 192 to 197). The
  Boolean is whether this key set \<open>has_at_least_one_untransited\<close>.
\<close>

definition transit_key ::
  "'s env \<Rightarrow> string \<Rightarrow> string \<Rightarrow> StorageClassArg \<Rightarrow> 's world \<Rightarrow> (exn + bool) \<times> 's world" where
  "transit_key s3 bucket key storage_class w =
     (case transit_try s3 bucket key storage_class w of
        (Inr u, w') \<Rightarrow> (Inr False, w')
      | (Inl (ClientError code), w') \<Rightarrow>
          if code = ''InvalidObjectState''
          then (Inr True, logger Warning (Exn (ClientError code)) w')
          else (Inl (ClientError code), w')
      | (Inl e, w') \<Rightarrow> (Inl e, w'))"

text \<open>
  \<open>transit_once\<close>: the \<open>for\<close> loop over the whole of \<open>keys\<close>, the flag as accumulator.
\<close>

fun transit_keys ::
  "'s env \<Rightarrow> string \<Rightarrow> string list \<Rightarrow> StorageClassArg \<Rightarrow> bool \<Rightarrow> 's world
     \<Rightarrow> (exn + bool) \<times> 's world" where
  "transit_keys s3 bucket [] storage_class has_at_least_one_untransited w =
     (Inr has_at_least_one_untransited, w)"
| "transit_keys s3 bucket (key # keys) storage_class has_at_least_one_untransited w =
     (case transit_key s3 bucket key storage_class w of
        (Inl e, w') \<Rightarrow> (Inl e, w')
      | (Inr untransited, w') \<Rightarrow>
          transit_keys s3 bucket keys storage_class
            (has_at_least_one_untransited \<or> untransited) w')"

definition transit_once ::
  "'s env \<Rightarrow> string \<Rightarrow> string list \<Rightarrow> StorageClassArg \<Rightarrow> 's world \<Rightarrow> (exn + bool) \<times> 's world" where
  "transit_once s3 bucket keys storage_class w =
     transit_keys s3 bucket keys storage_class False w"

text \<open>
  The \<open>while True\<close> loop (lines 201 to 206). It may run forever, so it is a partial
  function. The natural number is a ghost counter, absent from the source: the number of
  cycles (calls of \<open>transit_once\<close>) made so far; it is returned with the result and
  influences nothing.
\<close>

partial_function (option) transit_loop ::
  "'s env \<Rightarrow> string \<Rightarrow> string list \<Rightarrow> StorageClassArg \<Rightarrow> int \<Rightarrow> nat \<Rightarrow> 's world
     \<Rightarrow> ((exn + unit) \<times> nat \<times> 's world) option" where
  "transit_loop s3 bucket keys storage_class poll_seconds n w =
     (case transit_once s3 bucket keys storage_class w of
        (Inl e, w') \<Rightarrow> Some (Inl e, Suc n, w')
      | (Inr has_at_least_one_untransited, w') \<Rightarrow>
          if \<not> has_at_least_one_untransited then Some (Inr (), Suc n, w')
          else (case time_sleep s3 poll_seconds w' of
                  (Inl e, w'') \<Rightarrow> Some (Inl e, Suc n, w'')
                | (Inr u, w'') \<Rightarrow>
                    transit_loop s3 bucket keys storage_class poll_seconds (Suc n) w''))"

definition transit_glacier_objects ::
  "'s env \<Rightarrow> string \<Rightarrow> string list \<Rightarrow> StorageClassArg \<Rightarrow> int \<Rightarrow> 's world
     \<Rightarrow> ((exn + unit) \<times> nat \<times> 's world) option" where
  "transit_glacier_objects s3 bucket keys storage_class poll_seconds w =
     transit_loop s3 bucket keys storage_class poll_seconds 0 w"

section \<open>Restore Status Checker: \<open>check_restore_status\<close>\<close>

definition check_restore_status ::
  "'s env \<Rightarrow> string \<Rightarrow> string \<Rightarrow> 's world \<Rightarrow> (exn + unit) \<times> 's world" where
  "check_restore_status s3 bucket key w =
     (case call_head_object s3 bucket key w of
        (Inl e, w') \<Rightarrow> (Inl e, w')
      | (Inr rsp, w') \<Rightarrow>
          (case Restore rsp of
             Some status \<Rightarrow>
               (Inr (), logger Debug (Msg (''Restore status for '' @ key @ '': '' @ status)) w')
           | None \<Rightarrow> (Inr (), w')))"

section \<open>The script's entry point\<close>

text \<open>
  The parsed command line (\<open>args\<close>). An option given without \<open>required\<close> or \<open>default\<close>
  is \<open>None\<close> when absent. \<open>--days\<close> has no \<open>type\<close>, so it arrives as a string.

  A Python string is a sequence of Unicode code points. The script looks inside one string
  only, \<open>args.days\<close> (lines 266 and 267), which is therefore the list of its code points.
  Every other string is only compared, joined and passed on. \<open>ascii\<close> gives the code
  points of a string of ASCII characters.
\<close>

type_synonym unicode = "nat list"

definition ascii :: "string \<Rightarrow> unicode" where
  "ascii s = map of_char s"

record args =
  args_op :: Operation
  args_bucket :: string
  args_prefix :: "string option"
  args_log_level :: LogLevel
  args_days :: "unicode option"
  args_tier :: "Tier option"
  args_storage_class :: "StorageClassArg option"
  args_poll_seconds :: int

text \<open>
  The character tables of CPython 3.11 (Unicode 14.0.0), as ranges of code points, both
  ends included. \<open>digit_ranges\<close> holds the characters that \<open>str.isdigit\<close> accepts (numeric
  type Digit or Decimal), \<open>decimal_ranges\<close> those that \<open>int\<close> reads as a decimal digit
  (numeric type Decimal). Every range of \<open>decimal_ranges\<close> starts at a digit zero and runs
  through the digits in order, so that a digit's value is its offset modulo 10.
\<close>

definition decimal_ranges :: "(nat \<times> nat) list" where
  "decimal_ranges =
     [(48, 57), (1632, 1641), (1776, 1785), (1984, 1993), (2406, 2415), (2534, 2543),
      (2662, 2671), (2790, 2799), (2918, 2927), (3046, 3055), (3174, 3183), (3302, 3311),
      (3430, 3439), (3558, 3567), (3664, 3673), (3792, 3801), (3872, 3881), (4160, 4169),
      (4240, 4249), (6112, 6121), (6160, 6169), (6470, 6479), (6608, 6617), (6784, 6793),
      (6800, 6809), (6992, 7001), (7088, 7097), (7232, 7241), (7248, 7257), (42528, 42537),
      (43216, 43225), (43264, 43273), (43472, 43481), (43504, 43513), (43600, 43609),
      (44016, 44025), (65296, 65305), (66720, 66729), (68912, 68921), (69734, 69743),
      (69872, 69881), (69942, 69951), (70096, 70105), (70384, 70393), (70736, 70745),
      (70864, 70873), (71248, 71257), (71360, 71369), (71472, 71481), (71904, 71913),
      (72016, 72025), (72784, 72793), (73040, 73049), (73120, 73129), (92768, 92777),
      (92864, 92873), (93008, 93017), (120782, 120831), (123200, 123209), (123632, 123641),
      (125264, 125273), (130032, 130041)]"

definition digit_ranges :: "(nat \<times> nat) list" where
  "digit_ranges =
     [(48, 57), (178, 179), (185, 185), (1632, 1641), (1776, 1785), (1984, 1993), (2406, 2415),
      (2534, 2543), (2662, 2671), (2790, 2799), (2918, 2927), (3046, 3055), (3174, 3183),
      (3302, 3311), (3430, 3439), (3558, 3567), (3664, 3673), (3792, 3801), (3872, 3881),
      (4160, 4169), (4240, 4249), (4969, 4977), (6112, 6121), (6160, 6169), (6470, 6479),
      (6608, 6618), (6784, 6793), (6800, 6809), (6992, 7001), (7088, 7097), (7232, 7241),
      (7248, 7257), (8304, 8304), (8308, 8313), (8320, 8329), (9312, 9320), (9332, 9340),
      (9352, 9360), (9450, 9450), (9461, 9469), (9471, 9471), (10102, 10110), (10112, 10120),
      (10122, 10130), (42528, 42537), (43216, 43225), (43264, 43273), (43472, 43481),
      (43504, 43513), (43600, 43609), (44016, 44025), (65296, 65305), (66720, 66729),
      (68160, 68163), (68912, 68921), (69216, 69224), (69714, 69722), (69734, 69743),
      (69872, 69881), (69942, 69951), (70096, 70105), (70384, 70393), (70736, 70745),
      (70864, 70873), (71248, 71257), (71360, 71369), (71472, 71481), (71904, 71913),
      (72016, 72025), (72784, 72793), (73040, 73049), (73120, 73129), (92768, 92777),
      (92864, 92873), (93008, 93017), (120782, 120831), (123200, 123209), (123632, 123641),
      (125264, 125273), (127232, 127242), (130032, 130041)]"

definition isdigit_char :: "nat \<Rightarrow> bool" where
  "isdigit_char c = list_ex (\<lambda>(lo, hi). lo \<le> c \<and> c \<le> hi) digit_ranges"

definition decimal_value :: "nat \<Rightarrow> nat option" where
  "decimal_value c =
     (case find (\<lambda>(lo, hi). lo \<le> c \<and> c \<le> hi) decimal_ranges of
        None \<Rightarrow> None
      | Some (lo, hi) \<Rightarrow> Some ((c - lo) mod 10))"

text \<open>\<open>str.isdigit\<close>: at least one character, and every character a digit.\<close>

definition isdigit :: "unicode \<Rightarrow> bool" where
  "isdigit s = (s \<noteq> [] \<and> list_all isdigit_char s)"

fun str_nat :: "nat \<Rightarrow> string" where
  "str_nat n =
     (if n < 10 then [char_of (48 + n)] else str_nat (n div 10) @ [char_of (48 + n mod 10)])"

declare str_nat.simps [simp del]

definition str_int :: "int \<Rightarrow> string" where
  "str_int i = (if i < 0 then CHR ''-'' # str_nat (nat (- i)) else str_nat (nat i))"

text \<open>
  \<open>int\<close> on the strings that reach line 267 (279), which are those \<open>str.isdigit\<close> accepts:
  they hold no sign, blank or underscore, which \<open>int\<close> would otherwise have to deal with.
  CPython reads the decimal digits at the start of the string. More than 4300 of them (the
  default of \<open>sys.get_int_max_str_digits\<close>) raise \<open>ValueError\<close>; so does a character after
  them, which here can only be a digit that is not decimal, such as a superscript two. The
  message of the second error goes on with the \<open>repr\<close> of the string, which is left out.
\<close>

definition int_str :: "unicode \<Rightarrow> exn + int" where
  "int_str s =
     (let digits = takeWhile (\<lambda>c. decimal_value c \<noteq> None) s
      in if 4300 < length digits
         then Inl (ValueError
                (''Exceeds the limit (4300 digits) for integer string conversion: value has ''
                 @ str_nat (length digits)
                 @ '' digits; use sys.set_int_max_str_digits() to increase the limit''))
         else if s = [] \<or> digits \<noteq> s
         then Inl (ValueError ''invalid literal for int() with base 10'')
         else Inr (foldl (\<lambda>a c. 10 * a + int (the (decimal_value c))) 0 s))"

text \<open>
  Lines 266 to 272, which lines 278 to 284 repeat: the two assertions on \<open>--days\<close> and
  \<open>--tier\<close>. \<open>args.days and ...\<close> is false for \<open>None\<close> and for the empty string. An
  exception of \<open>int\<close> is not caught.
\<close>

definition days_and_tier :: "args \<Rightarrow> 's world \<Rightarrow> (exn + int \<times> Tier) \<times> 's world" where
  "days_and_tier args w =
     (case args_days args of
        None \<Rightarrow> (Inl (AssertionError ''--days must be set to an integer''), w)
      | Some d \<Rightarrow>
          if d \<noteq> [] \<and> isdigit d
          then (case int_str d of
                  Inl e \<Rightarrow> (Inl e, w)
                | Inr days \<Rightarrow>
                    (let w1 = logger Debug (Msg (''Restore retrieval days: '' @ str_int days)) w
                     in case args_tier args of
                          None \<Rightarrow> (Inl (AssertionError ''--tier must be set''), w1)
                        | Some tier \<Rightarrow>
                            (Inr (days, tier),
                             logger Debug (Msg (''Restore retrieval tier: '' @ Tier_str tier)) w1)))
          else (Inl (AssertionError ''--days must be set to an integer''), w))"

text \<open>The loop of lines 298 and 299: no \<open>try\<close>, the first error ends it.\<close>

fun check_all :: "'s env \<Rightarrow> string \<Rightarrow> string list \<Rightarrow> 's world \<Rightarrow> (exn + unit) \<times> 's world" where
  "check_all s3 bucket [] w = (Inr (), w)"
| "check_all s3 bucket (key # keys) w =
     (case check_restore_status s3 bucket key w of
        (Inl e, w') \<Rightarrow> (Inl e, w')
      | (Inr u, w') \<Rightarrow> check_all s3 bucket keys w')"

text \<open>
  Lines 250 to 299. The result \<open>Inl e\<close> is the uncaught exception \<open>e\<close>, which ends the
  process with a non-zero status; \<open>Inr ()\<close> is the normal end. The trace records the
  calls of the logger, whatever level \<open>setLevel\<close> has chosen.
\<close>

definition main :: "'s env \<Rightarrow> args \<Rightarrow> 's world \<Rightarrow> ((exn + unit) \<times> 's world) option" where
  "main s3 args w0 =
     (let bucket = args_bucket args;
          w1 = logger Debug (Msg (''Bucket: '' @ bucket))
                 (w0\<lparr>trace := trace w0 @ [SetLevel (to_val (args_log_level args))]\<rparr>);
          prefix = (case args_prefix args of None \<Rightarrow> [] | Some p \<Rightarrow> if p \<noteq> [] then p else []);
          w2 = logger Debug (Msg (''Prefix: '' @ prefix)) w1
      in case args_op args of
           OpList \<Rightarrow>
             (case list_objects s3 bucket prefix True True w2 of
                None \<Rightarrow> None
              | Some (Inl e, w3) \<Rightarrow> Some (Inl e, w3)
              | Some (Inr keys, w3) \<Rightarrow>
                  Some (Inr (), logger Info (Msg ''Done listing Glacier objects!'') w3))
         | OpRestore \<Rightarrow>
             (case days_and_tier args w2 of
                (Inl e, w3) \<Rightarrow> Some (Inl e, w3)
              | (Inr (days, tier), w3) \<Rightarrow>
                  (case list_objects s3 bucket prefix True False w3 of
                     None \<Rightarrow> None
                   | Some (Inl e, w4) \<Rightarrow> Some (Inl e, w4)
                   | Some (Inr keys, w4) \<Rightarrow>
                       (case restore_glacier_objects s3 bucket keys days tier True True w4 of
                          (Inl e, w5) \<Rightarrow> Some (Inl e, w5)
                        | (Inr u, w5) \<Rightarrow>
                            Some (Inr (),
                                  logger Info
                                    (Msg ''Done listing and restoring Glacier objects!'') w5))))
         | OpTransit \<Rightarrow>
             (case days_and_tier args w2 of
                (Inl e, w3) \<Rightarrow> Some (Inl e, w3)
              | (Inr (days, tier), w3) \<Rightarrow>
                  (case args_storage_class args of
                     None \<Rightarrow> Some (Inl (AssertionError ''--storage-class must be set''), w3)
                   | Some storage_class \<Rightarrow>
                       (case list_objects s3 bucket prefix True False
                               (logger Debug
                                  (Msg (''Transit storage class: ''
                                        @ StorageClass_str storage_class)) w3) of
                          None \<Rightarrow> None
                        | Some (Inl e, w4) \<Rightarrow> Some (Inl e, w4)
                        | Some (Inr keys, w4) \<Rightarrow>
                            (case restore_glacier_objects s3 bucket keys days tier True True w4 of
                               (Inl e, w5) \<Rightarrow> Some (Inl e, w5)
                             | (Inr u, w5) \<Rightarrow>
                                 (case transit_glacier_objects s3 bucket keys storage_class
                                         (args_poll_seconds args) w5 of
                                    None \<Rightarrow> None
                                  | Some (Inl e, n, w6) \<Rightarrow> Some (Inl e, w6)
                                  | Some (Inr u, n, w6) \<Rightarrow>
                                      Some (Inr (),
                                            logger Info
                                              (Msg ''Done listing, restoring and transiting Glacier objects!'')
                                              w6))))))
         | OpCheckRestore \<Rightarrow>
             (case list_objects s3 bucket prefix False False w2 of
                None \<Rightarrow> None
              | Some (Inl e, w3) \<Rightarrow> Some (Inl e, w3)
              | Some (Inr keys, w3) \<Rightarrow> Some (check_all s3 bucket keys w3)))"

section \<open>Test doubles of the provider\<close>

text \<open>
  The provider is outside the script. The scenarios below run the script against these
  stand-ins. \<open>stub\<close> refuses every call; the others override what a scenario needs.
\<close>

definition stub :: "'s env" where
  "stub =
     \<lparr>list_objects_v2 = (\<lambda>bucket prefix token s. (Inl (OtherError ''unexpected call''), s)),
      restore_object = (\<lambda>bucket key days tier s. (Inl (OtherError ''unexpected call''), s)),
      copy_object = (\<lambda>bucket key storage_class s. (Inl (OtherError ''unexpected call''), s)),
      head_object = (\<lambda>bucket key s. (Inl (OtherError ''unexpected call''), s)),
      time_passes = (\<lambda>seconds s. s)\<rparr>"

text \<open>
  A provider whose \<open>restore_object\<close> raises, for each key of the table, a \<open>ClientError\<close>
  with the code the table gives, and accepts every other key.
\<close>

definition restore_errors :: "(string \<times> string) list \<Rightarrow> unit env" where
  "restore_errors table =
     stub\<lparr>restore_object :=
            (\<lambda>bucket key days tier s.
               case map_of table key of
                 Some code \<Rightarrow> (Inl (ClientError code), s)
               | None \<Rightarrow> (Inr (), s))\<rparr>"

text \<open>
  A bucket held in memory: each object is its key, its storage class and the number of
  copy requests the provider will still refuse with \<open>InvalidObjectState\<close> (the restore
  has not completed). A listing returns, on one page, the objects whose key starts with the
  prefix, and no \<open>Contents\<close> entry when there is none, as the real provider does.
\<close>

type_synonym store = "(string \<times> string \<times> nat) list"

definition startswith :: "string \<Rightarrow> string \<Rightarrow> bool" where
  "startswith key prefix = (take (length prefix) key = prefix)"

fun store_copy :: "string \<Rightarrow> string \<Rightarrow> store \<Rightarrow> (exn + unit) \<times> store" where
  "store_copy key storage_class [] = (Inl (ClientError ''NoSuchKey''), [])"
| "store_copy key storage_class ((k, c, n) # rest) =
     (if k = key
      then (if c = ''GLACIER'' \<and> 0 < n
            then (Inl (ClientError ''InvalidObjectState''), (k, c, n - 1) # rest)
            else (Inr (), (k, storage_class, n) # rest))
      else (case store_copy key storage_class rest of (r, rest') \<Rightarrow> (r, (k, c, n) # rest')))"

definition store_list :: "string \<Rightarrow> store \<Rightarrow> list_rsp" where
  "store_list prefix s =
     (case filter (\<lambda>(k, c, n). startswith k prefix) s of
        [] \<Rightarrow> \<lparr>Contents = None, NextContinuationToken = None\<rparr>
      | m \<Rightarrow> \<lparr>Contents = Some (map (\<lambda>(k, c, n). \<lparr>Key = k, StorageClass = c\<rparr>) m),
             NextContinuationToken = None\<rparr>)"

definition store_env :: "store env" where
  "store_env =
     \<lparr>list_objects_v2 = (\<lambda>bucket prefix token s. (Inr (store_list prefix s), s)),
      restore_object = (\<lambda>bucket key days tier s. (Inr (), s)),
      copy_object = (\<lambda>bucket key storage_class s. store_copy key storage_class s),
      head_object = (\<lambda>bucket key s. (Inr \<lparr>Restore = None\<rparr>, s)),
      time_passes = (\<lambda>seconds s. s)\<rparr>"

text \<open>
  A paged listing: the provider cuts the objects it has to return into the given pages.
  The first call (no token) returns page 0; the token handed out with page \<open>i\<close> names page
  \<open>i + 1\<close>, and the last page carries no token. An empty page has no \<open>Contents\<close> entry.
\<close>

definition page_token :: "nat \<Rightarrow> string" where
  "page_token i = replicate i (CHR ''t'')"

definition page_index :: "string option \<Rightarrow> nat" where
  "page_index token = (case token of None \<Rightarrow> 0 | Some t \<Rightarrow> length t)"

definition paged_listing :: "s3_object list list \<Rightarrow> string option \<Rightarrow> 's \<Rightarrow> (exn + list_rsp) \<times> 's" where
  "paged_listing pages token s =
     (let i = page_index token
      in (Inr \<lparr>Contents = (if i < length pages \<and> pages ! i \<noteq> [] then Some (pages ! i) else None),
               NextContinuationToken =
                 (if Suc i < length pages then Some (page_token (Suc i)) else None)\<rparr>,
          s))"

section \<open>What the claims speak about\<close>

text \<open>The provider calls of a trace, and the prefixes (keys) its listing calls ask for.\<close>

fun is_call :: "event \<Rightarrow> bool" where
  "is_call (ListObjectsV2 bucket prefix token) = True"
| "is_call (RestoreObject bucket key days tier) = True"
| "is_call (CopyObject bucket key storage_class) = True"
| "is_call (HeadObject bucket key) = True"
| "is_call (Sleep seconds) = False"
| "is_call (SetLevel lvl) = False"
| "is_call (Log lvl a) = False"

definition provider_calls :: "event list \<Rightarrow> event list" where
  "provider_calls t = filter is_call t"

fun listed :: "event list \<Rightarrow> string list" where
  "listed [] = []"
| "listed (ListObjectsV2 bucket prefix token # t) = prefix # listed t"
| "listed (e # t) = listed t"

fun is_log :: "event \<Rightarrow> bool" where
  "is_log (Log lvl a) = True"
| "is_log e = False"

text \<open>
  What a run of the restore loop leaves in the trace when every request is answered
  with \<open>RestoreAlreadyInProgress\<close>: per key the debug line, the request, the warning.
\<close>

fun conflict_warnings :: "string \<Rightarrow> string list \<Rightarrow> int \<Rightarrow> Tier \<Rightarrow> event list" where
  "conflict_warnings bucket [] days tier = []"
| "conflict_warnings bucket (key # keys) days tier =
     [Log Debug (Msg (''Restoring '' @ quoted key)),
      RestoreObject bucket key days (Tier_str tier),
      Log Warning (Exn (ClientError ''RestoreAlreadyInProgress''))]
     @ conflict_warnings bucket keys days tier"

text \<open>
  The world at the start of the \<open>n\<close>-th poll cycle (counted from 0) when every cycle before
  it was followed by the sleep, and whether the key at position \<open>i\<close> of the batch reports
  \<open>InvalidObjectState\<close> in the cycle that starts in world \<open>w\<close>.
\<close>

fun cycle_start ::
  "'s env \<Rightarrow> string \<Rightarrow> string list \<Rightarrow> StorageClassArg \<Rightarrow> int \<Rightarrow> 's world \<Rightarrow> nat \<Rightarrow> 's world" where
  "cycle_start s3 bucket keys storage_class poll_seconds w 0 = w"
| "cycle_start s3 bucket keys storage_class poll_seconds w (Suc n) =
     cycle_start s3 bucket keys storage_class poll_seconds
       (snd (time_sleep s3 poll_seconds (snd (transit_once s3 bucket keys storage_class w)))) n"

definition pends ::
  "'s env \<Rightarrow> string \<Rightarrow> string list \<Rightarrow> StorageClassArg \<Rightarrow> 's world \<Rightarrow> nat \<Rightarrow> bool" where
  "pends s3 bucket keys storage_class w i =
     (fst (transit_key s3 bucket (keys ! i) storage_class
             (snd (transit_once s3 bucket (take i keys) storage_class w))) = Inr True)"

text \<open>
  A provider whose listing of a key returns that key alone, archived, and whose
  \<open>copy_object\<close> raises the \<open>ClientError\<close> the table gives for the key, if any.
\<close>

definition copy_errors :: "(string \<times> string) list \<Rightarrow> unit env" where
  "copy_errors table =
     stub\<lparr>list_objects_v2 :=
            (\<lambda>bucket prefix token s.
               (Inr \<lparr>Contents = Some [\<lparr>Key = prefix, StorageClass = ''GLACIER''\<rparr>],
                     NextContinuationToken = None\<rparr>, s)),
          copy_object :=
            (\<lambda>bucket key storage_class s.
               case map_of table key of
                 Some code \<Rightarrow> (Inl (ClientError code), s)
               | None \<Rightarrow> (Inr (), s))\<rparr>"

text \<open>A provider whose every listing returns the given response.\<close>

definition listing_is :: "list_rsp \<Rightarrow> unit env" where
  "listing_is rsp = stub\<lparr>list_objects_v2 := (\<lambda>bucket prefix token s. (Inr rsp, s))\<rparr>"

text \<open>A provider whose \<open>head_object\<close> returns the given response.\<close>

definition head_is :: "head_rsp \<Rightarrow> unit env" where
  "head_is rsp = stub\<lparr>head_object := (\<lambda>bucket key s. (Inr rsp, s))\<rparr>"

text \<open>
  The scenario of two keys, the first of which reports \<open>InvalidObjectState\<close> once: the
  world it starts in and the world it ends in.
\<close>

definition two_keys :: "store world" where
  "two_keys = \<lparr>pstate = [(''k1'', ''GLACIER'', 1), (''k2'', ''GLACIER'', 0)], trace = []\<rparr>"

definition two_keys_final :: "store world" where
  "two_keys_final =
     \<lparr>pstate = [(''k1'', ''STANDARD'', 0), (''k2'', ''STANDARD'', 0)],
      trace =
        [ListObjectsV2 ''b'' ''k1'' None,
         Log Debug (Msg (''Transiting '' @ quoted ''k1'' @ '' back to storage class [STANDARD]'')),
         CopyObject ''b'' ''k1'' ''STANDARD'',
         Log Warning (Exn (ClientError ''InvalidObjectState'')),
         ListObjectsV2 ''b'' ''k2'' None,
         Log Debug (Msg (''Transiting '' @ quoted ''k2'' @ '' back to storage class [STANDARD]'')),
         CopyObject ''b'' ''k2'' ''STANDARD'',
         Log Debug (Msg (''Transiting '' @ quoted ''k2'' @ '' successful!'')),
         Sleep 3600,
         ListObjectsV2 ''b'' ''k1'' None,
         Log Debug (Msg (''Transiting '' @ quoted ''k1'' @ '' back to storage class [STANDARD]'')),
         CopyObject ''b'' ''k1'' ''STANDARD'',
         Log Debug (Msg (''Transiting '' @ quoted ''k1'' @ '' successful!'')),
         ListObjectsV2 ''b'' ''k2'' None,
         Log Debug (Msg (''Skipping '' @ quoted ''k2''
                         @ '' because it it no longer a GLACIER object''))]\<rparr>"

text \<open>A provider that serves every listing from the given pages.\<close>

definition paged_env :: "s3_object list list \<Rightarrow> unit env" where
  "paged_env pages = stub\<lparr>list_objects_v2 := (\<lambda>bucket prefix. paged_listing pages)\<rparr>"

text \<open>The test of lines 100 to 105 on one listed object.\<close>

definition selected :: "bool \<Rightarrow> s3_object \<Rightarrow> bool" where
  "selected glacier obj = (if glacier then StorageClass obj = ''GLACIER'' else True)"

text \<open>
  Line 257, and the three effects of lines 253 to 258 that every run starts with.
\<close>

definition prefix_arg :: "args \<Rightarrow> string" where
  "prefix_arg args = (case args_prefix args of None \<Rightarrow> [] | Some p \<Rightarrow> if p \<noteq> [] then p else [])"

definition prelude :: "args \<Rightarrow> event list" where
  "prelude args =
     [SetLevel (to_val (args_log_level args)),
      Log Debug (Msg (''Bucket: '' @ args_bucket args)),
      Log Debug (Msg (''Prefix: '' @ prefix_arg args))]"

text \<open>
  Command lines for the restore and the transit operation with the given \<open>--days\<close>, and a
  bucket that holds one archived object.
\<close>

definition restore_args :: "unicode option \<Rightarrow> args" where
  "restore_args days =
     \<lparr>args_op = OpRestore, args_bucket = ''b'', args_prefix = Some ''logs/'',
      args_log_level = Debug, args_days = days, args_tier = Some Standard,
      args_storage_class = None, args_poll_seconds = 3600\<rparr>"

definition transit_args :: "unicode option \<Rightarrow> args" where
  "transit_args days =
     \<lparr>args_op = OpTransit, args_bucket = ''b'', args_prefix = Some ''logs/'',
      args_log_level = Debug, args_days = days, args_tier = Some Standard,
      args_storage_class = Some StandardClass, args_poll_seconds = 3600\<rparr>"

definition one_archived :: "store world" where
  "one_archived = \<lparr>pstate = [(''logs/x'', ''GLACIER'', 0)], trace = []\<rparr>"

text \<open>
  The world in which the listing of line 274 (292) starts: the three opening effects, then
  the debug lines of the parsed \<open>--days\<close>, of \<open>--tier\<close> and, for the transit operation, of
  \<open>--storage-class\<close>.
\<close>

definition validated :: "args \<Rightarrow> int \<Rightarrow> Tier \<Rightarrow> 's world \<Rightarrow> 's world" where
  "validated args days tier w =
     w\<lparr>trace := trace w @ prelude args
          @ [Log Debug (Msg (''Restore retrieval days: '' @ str_int days)),
             Log Debug (Msg (''Restore retrieval tier: '' @ Tier_str tier))]
          @ (case args_storage_class args of
               None \<Rightarrow> []
             | Some c \<Rightarrow>
                 if args_op args = OpTransit
                 then [Log Debug (Msg (''Transit storage class: '' @ StorageClass_str c))]
                 else [])\<rparr>"

text \<open>
  The two-key scenario after its first cycle and the sleep that follows it, and the provider
  state in which both keys have left the archive tier.
\<close>

definition two_keys_slept :: "store world" where
  "two_keys_slept = snd (time_sleep store_env 3600
      (snd (transit_once store_env ''b'' [''k1'', ''k2''] StandardClass two_keys)))"

definition both_standard :: store where
  "both_standard = [(''k1'', ''STANDARD'', 0), (''k2'', ''STANDARD'', 0)]"

section \<open>Helper facts\<close>

lemmas effects =
  call_list_objects_v2_def call_restore_object_def call_copy_object_def
  call_head_object_def logger_def time_sleep_def

lemma restore_catching_conflicts:
  assumes "\<forall>s. \<forall>key \<in> set keys.
             fst (restore_object s3 bucket key days (Tier_str tier) s)
               = Inl (ClientError ''RestoreAlreadyInProgress'')"
  shows "fst (restore_catching s3 bucket keys days tier coe w) = Inr ()
         \<and> trace (snd (restore_catching s3 bucket keys days tier coe w))
             = trace w @ conflict_warnings bucket keys days tier"
  using assms
proof (induction keys arbitrary: w)
  case Nil
  then show ?case by simp
next
  case (Cons key keys)
  obtain r s' where rs: "restore_object s3 bucket key days (Tier_str tier) (pstate w) = (r, s')"
    by (cases "restore_object s3 bucket key days (Tier_str tier) (pstate w)")
  with Cons.prems have r: "r = Inl (ClientError ''RestoreAlreadyInProgress'')"
    by (metis fst_conv list.set_intros(1))
  have rest: "\<forall>s. \<forall>k \<in> set keys.
                fst (restore_object s3 bucket k days (Tier_str tier) s)
                  = Inl (ClientError ''RestoreAlreadyInProgress'')"
    using Cons.prems by simp
  show ?case
    using Cons.IH[OF rest] rs r by (simp add: impl_def effects)
qed

section \<open>The claims\<close>

text \<open>
  C10. Both batch operations accept the empty batch. \<open>restore_glacier_objects\<close> on an empty
  key list returns normally and leaves the world as it was: no provider call, nothing
  logged. \<open>transit_glacier_objects\<close> on an empty key list returns normally after exactly one
  cycle, again with the world as it was: no provider call and no sleep.
\<close>

theorem empty_batch:
  "restore_glacier_objects s3 bucket [] days tier
       continue_on_restore_already_in_progress continue_on_other_errors w = (Inr (), w)
   \<and> transit_once s3 bucket [] storage_class w = (Inr False, w)
   \<and> transit_glacier_objects s3 bucket [] storage_class poll_seconds w = Some (Inr (), 1, w)"
  by (simp add: restore_glacier_objects_def transit_glacier_objects_def
        transit_loop.simps transit_once_def)

text \<open>
  C8. Under the default conflict policy (\<open>continue_on_restore_already_in_progress = True\<close>),
  a run of \<open>restore_glacier_objects\<close> in which the provider answers every request of the
  batch with \<open>RestoreAlreadyInProgress\<close>, as it does when the batch is submitted a second
  time, returns normally, whatever the other flag is; it has asked for every key in
  order and logged each conflict as a warning, and nothing at level error.
\<close>

theorem restore_twice_not_fatal:
  assumes "\<forall>s. \<forall>key \<in> set keys.
             fst (restore_object s3 bucket key days (Tier_str tier) s)
               = Inl (ClientError ''RestoreAlreadyInProgress'')"
  shows "fst (restore_glacier_objects s3 bucket keys days tier True continue_on_other_errors w)
           = Inr ()
         \<and> trace (snd (restore_glacier_objects s3 bucket keys days tier True
                          continue_on_other_errors w))
             = trace w @ conflict_warnings bucket keys days tier"
  using restore_catching_conflicts[OF assms] by (simp add: restore_glacier_objects_def)

theorem restore_twice_not_fatal_witness:
  "fst (restore_glacier_objects
          (restore_errors [(''logs/a'', ''RestoreAlreadyInProgress''),
                           (''logs/b'', ''RestoreAlreadyInProgress'')])
          ''b'' [''logs/a'', ''logs/b''] 5 Standard True True \<lparr>pstate = (), trace = []\<rparr>)
     = Inr ()
   \<and> trace (snd (restore_glacier_objects
          (restore_errors [(''logs/a'', ''RestoreAlreadyInProgress''),
                           (''logs/b'', ''RestoreAlreadyInProgress'')])
          ''b'' [''logs/a'', ''logs/b''] 5 Standard True True \<lparr>pstate = (), trace = []\<rparr>))
     = [Log Debug (Msg (''Restoring '' @ quoted ''logs/a'')),
        RestoreObject ''b'' ''logs/a'' 5 ''Standard'',
        Log Warning (Exn (ClientError ''RestoreAlreadyInProgress'')),
        Log Debug (Msg (''Restoring '' @ quoted ''logs/b'')),
        RestoreObject ''b'' ''logs/b'' 5 ''Standard'',
        Log Warning (Exn (ClientError ''RestoreAlreadyInProgress''))]"
proof -
  have h: "\<forall>s. \<forall>key \<in> set [''logs/a'', ''logs/b''].
      fst (restore_object
             (restore_errors [(''logs/a'', ''RestoreAlreadyInProgress''),
                              (''logs/b'', ''RestoreAlreadyInProgress'')])
             ''b'' key 5 (Tier_str Standard) s)
        = Inl (ClientError ''RestoreAlreadyInProgress'')"
    by (simp add: restore_errors_def stub_def)
  show ?thesis
    using restore_twice_not_fatal[OF h, of True "\<lparr>pstate = (), trace = []\<rparr>"]
    by simp
qed

text \<open>
  C3. The claim is that, whatever the conflict policy, an error other than
  \<open>RestoreAlreadyInProgress\<close> is logged and skipped when \<open>continue_on_other_errors\<close> is true.
  The branch for \<open>continue_on_restore_already_in_progress = False\<close> has no \<open>try\<close>: with the
  flag \<open>continue_on_other_errors\<close> at its default \<open>True\<close>, the error of the first key ends
  the call, nothing is logged about it, and the second key is never requested.
\<close>

theorem other_error_aborts_when_conflict_strict:
  "restore_glacier_objects (restore_errors [(''a'', ''InternalError'')])
       ''b'' [''a'', ''c''] 5 Standard False True \<lparr>pstate = (), trace = []\<rparr>
     = (Inl (ClientError ''InternalError''),
        \<lparr>pstate = (),
         trace = [Log Debug (Msg (''Restoring '' @ quoted ''a'')),
                  RestoreObject ''b'' ''a'' 5 ''Standard'']\<rparr>)"
  by (simp add: restore_glacier_objects_def impl_def effects restore_errors_def stub_def)

text \<open>
  The sibling branch does what the claim says: with the conflict policy at its default,
  the same error on the same batch is logged at level error and the next key is requested.
\<close>

lemma other_error_continues_when_conflict_tolerated:
  "restore_glacier_objects (restore_errors [(''a'', ''InternalError'')])
       ''b'' [''a'', ''c''] 5 Standard True True \<lparr>pstate = (), trace = []\<rparr>
     = (Inr (),
        \<lparr>pstate = (),
         trace = [Log Debug (Msg (''Restoring '' @ quoted ''a'')),
                  RestoreObject ''b'' ''a'' 5 ''Standard'',
                  Log Error (Exn (ClientError ''InternalError'')),
                  Log Warning
                    (Msg ''Continuing because `continue_on_other_errors` is set to `True`''),
                  Log Debug (Msg (''Restoring '' @ quoted ''c'')),
                  RestoreObject ''b'' ''c'' 5 ''Standard'',
                  Log Debug (Msg (''Successfully sent Restore request for '' @ quoted ''c''))]\<rparr>)"
  by (simp add: restore_glacier_objects_def impl_def effects restore_errors_def stub_def)

lemma transit_keys_append:
  "transit_keys s3 bucket (xs @ ys) sc has w =
     (case transit_keys s3 bucket xs sc has w of
        (Inl e, w') \<Rightarrow> (Inl e, w')
      | (Inr has', w') \<Rightarrow> transit_keys s3 bucket ys sc has' w')"
  by (induction xs arbitrary: has w) (auto split: prod.splits sum.splits)

lemma transit_once_abort:
  assumes "transit_once s3 bucket pre sc w = (Inr has, w1)"
      and "transit_key s3 bucket key sc w1 = (Inl e, w2)"
  shows "transit_once s3 bucket (pre @ key # post) sc w = (Inl e, w2)"
  using assms by (simp add: transit_once_def transit_keys_append)

lemma transit_loop_abort:
  assumes "transit_once s3 bucket keys sc w = (Inl e, w2)"
  shows "transit_loop s3 bucket keys sc poll n w = Some (Inl e, Suc n, w2)"
  using assms by (subst transit_loop.simps) simp

text \<open>
  C4. In any poll cycle (the cycle that starts in world \<open>w\<close>), when the keys before \<open>key\<close>
  have been processed without an exception and the copy of \<open>key\<close> raises a \<open>ClientError\<close>
  whose code is not \<open>InvalidObjectState\<close>, the poll loop returns that error at once: the
  trace ends with the failing copy call, so the key is not retried and not skipped, no
  later key of the batch is attempted, there is no sleep and no further cycle.
\<close>

theorem transit_hard_error_aborts:
  assumes "transit_once s3 bucket pre storage_class w = (Inr has, w1)"
      and "list_objects_v2 s3 bucket key None (pstate w1) = (Inr rsp, s1)"
      and "Contents rsp = Some [obj]"
      and "StorageClass obj = ''GLACIER''"
      and "copy_object s3 bucket key (StorageClass_str storage_class) s1 = (Inl (ClientError code), s2)"
      and "code \<noteq> ''InvalidObjectState''"
  shows "transit_loop s3 bucket (pre @ key # post) storage_class poll_seconds n w =
           Some (Inl (ClientError code), Suc n,
                 \<lparr>pstate = s2,
                  trace = trace w1 @
                    [ListObjectsV2 bucket key None,
                     Log Debug (Msg (''Transiting '' @ quoted key @ '' back to storage class [''
                                     @ StorageClass_str storage_class @ '']'')),
                     CopyObject bucket key (StorageClass_str storage_class)]\<rparr>)"
proof -
  have "transit_key s3 bucket key storage_class w1 =
          (Inl (ClientError code),
           \<lparr>pstate = s2,
            trace = trace w1 @
              [ListObjectsV2 bucket key None,
               Log Debug (Msg (''Transiting '' @ quoted key @ '' back to storage class [''
                               @ StorageClass_str storage_class @ '']'')),
               CopyObject bucket key (StorageClass_str storage_class)]\<rparr>)"
    using assms(2-6) by (simp add: transit_key_def transit_try_def effects)
  from transit_once_abort[OF assms(1) this] show ?thesis
    by (rule transit_loop_abort)
qed

theorem transit_hard_error_aborts_witness:
  "transit_loop (copy_errors [(''a'', ''InvalidObjectState''), (''bad'', ''AccessDenied'')])
       ''b'' ([''a''] @ ''bad'' # [''c'']) StandardClass 3600 0 \<lparr>pstate = (), trace = []\<rparr> =
     Some (Inl (ClientError ''AccessDenied''), Suc 0,
           \<lparr>pstate = (),
            trace =
              [ListObjectsV2 ''b'' ''a'' None,
               Log Debug (Msg (''Transiting '' @ quoted ''a'' @ '' back to storage class [''
                               @ ''STANDARD'' @ '']'')),
               CopyObject ''b'' ''a'' ''STANDARD'',
               Log Warning (Exn (ClientError ''InvalidObjectState'')),
               ListObjectsV2 ''b'' ''bad'' None,
               Log Debug (Msg (''Transiting '' @ quoted ''bad'' @ '' back to storage class [''
                               @ ''STANDARD'' @ '']'')),
               CopyObject ''b'' ''bad'' ''STANDARD'']\<rparr>)"
proof -
  let ?s3 = "copy_errors [(''a'', ''InvalidObjectState''), (''bad'', ''AccessDenied'')]"
  let ?w1 = "\<lparr>pstate = (),
            trace =
              [ListObjectsV2 ''b'' ''a'' None,
               Log Debug (Msg (''Transiting '' @ quoted ''a'' @ '' back to storage class [''
                               @ ''STANDARD'' @ '']'')),
               CopyObject ''b'' ''a'' ''STANDARD'',
               Log Warning (Exn (ClientError ''InvalidObjectState''))]\<rparr>"
  have h1: "transit_once ?s3 ''b'' [''a''] StandardClass \<lparr>pstate = (), trace = []\<rparr> = (Inr True, ?w1)"
    by (simp add: transit_once_def transit_key_def transit_try_def effects copy_errors_def stub_def)
  have h2: "list_objects_v2 ?s3 ''b'' ''bad'' None (pstate ?w1)
              = (Inr \<lparr>Contents = Some [\<lparr>Key = ''bad'', StorageClass = ''GLACIER''\<rparr>],
                      NextContinuationToken = None\<rparr>, ())"
    by (simp add: copy_errors_def stub_def)
  have h3: "Contents \<lparr>Contents = Some [\<lparr>Key = ''bad'', StorageClass = ''GLACIER''\<rparr>],
                      NextContinuationToken = None\<rparr> = Some [\<lparr>Key = ''bad'', StorageClass = ''GLACIER''\<rparr>]"
    by simp
  have h4: "StorageClass \<lparr>Key = ''bad'', StorageClass = ''GLACIER''\<rparr> = ''GLACIER''" by simp
  have h5: "copy_object ?s3 ''b'' ''bad'' (StorageClass_str StandardClass) ()
              = (Inl (ClientError ''AccessDenied''), ())"
    by (simp add: copy_errors_def stub_def)
  have h6: "''AccessDenied'' \<noteq> ''InvalidObjectState''" by simp
  show ?thesis
    using transit_hard_error_aborts[OF h1 h2 h3 h4 h5 h6, of "[''c'']" 3600 0]
    by simp
qed

text \<open>
  C9 (amended). When the listing of a key does not return exactly one object, the poll
  loop ends at once with an exception that nothing catches, right after that listing
  call: no copy, no later key, no further cycle. The exception is an \<open>AssertionError\<close>
  when the response has a \<open>Contents\<close> list of length other than 1, and a \<open>KeyError\<close>
  when the response has no \<open>Contents\<close> entry, which is how the provider reports that
  nothing matches (line 97 tests for it).
\<close>

theorem relist_not_single_aborts:
  assumes "transit_once s3 bucket pre storage_class w = (Inr has, w1)"
      and "list_objects_v2 s3 bucket key None (pstate w1) = (Inr rsp, s1)"
      and "case Contents rsp of None \<Rightarrow> True | Some objs \<Rightarrow> length objs \<noteq> 1"
  shows "transit_loop s3 bucket (pre @ key # post) storage_class poll_seconds n w =
           Some (Inl (case Contents rsp of
                        None \<Rightarrow> KeyError ''Contents''
                      | Some objs \<Rightarrow> AssertionError []),
                 Suc n,
                 \<lparr>pstate = s1, trace = trace w1 @ [ListObjectsV2 bucket key None]\<rparr>)"
proof -
  have "transit_key s3 bucket key storage_class w1 =
          (Inl (case Contents rsp of
                  None \<Rightarrow> KeyError ''Contents''
                | Some objs \<Rightarrow> AssertionError []),
           \<lparr>pstate = s1, trace = trace w1 @ [ListObjectsV2 bucket key None]\<rparr>)"
    using assms(2,3)
    by (auto simp add: transit_key_def transit_try_def effects split: option.splits list.splits)
  from transit_once_abort[OF assms(1) this] show ?thesis
    by (rule transit_loop_abort)
qed

text \<open>
  C7 (amended). \<open>check_restore_status\<close> makes exactly one provider call, the
  \<open>head_object\<close> of the key, and leaves the provider's state as that call leaves it. When
  the response has a \<open>Restore\<close> entry it logs the status at level debug; when it has none
  it logs nothing and returns normally; when the call raises, the exception propagates.
\<close>

theorem check_restore_status_effects:
  "fst (check_restore_status s3 bucket key w)
     = (case fst (head_object s3 bucket key (pstate w)) of Inl e \<Rightarrow> Inl e | Inr rsp \<Rightarrow> Inr ())
   \<and> pstate (snd (check_restore_status s3 bucket key w))
       = snd (head_object s3 bucket key (pstate w))
   \<and> trace (snd (check_restore_status s3 bucket key w))
       = trace w @ HeadObject bucket key #
           (case fst (head_object s3 bucket key (pstate w)) of
              Inl e \<Rightarrow> []
            | Inr rsp \<Rightarrow>
                (case Restore rsp of
                   Some status \<Rightarrow>
                     [Log Debug (Msg (''Restore status for '' @ key @ '': '' @ status))]
                 | None \<Rightarrow> []))"
  by (cases "head_object s3 bucket key (pstate w)")
     (auto simp add: check_restore_status_def effects split: sum.splits option.splits)

text \<open>
  C7, counterexample. For an object without restore metadata the function reports
  nothing: the trace holds the \<open>head_object\<close> call and no call of the logger.
\<close>

theorem check_restore_status_silent:
  "check_restore_status (head_is \<lparr>Restore = None\<rparr>) ''b'' ''k'' \<lparr>pstate = (), trace = []\<rparr>
     = (Inr (), \<lparr>pstate = (), trace = [HeadObject ''b'' ''k'']\<rparr>)
   \<and> filter is_log [HeadObject ''b'' ''k''] = []"
  by (simp add: check_restore_status_def effects head_is_def stub_def)

text \<open>
  C9, witness: \<open>logs/a\<close> is a prefix of \<open>logs/ab\<close>, so its listing returns two objects.
\<close>

theorem relist_not_single_aborts_witness:
  "transit_loop store_env ''b'' ([] @ ''logs/a'' # [''logs/ab'']) StandardClass 3600 0
       \<lparr>pstate = [(''logs/a'', ''GLACIER'', 0), (''logs/ab'', ''GLACIER'', 0)], trace = []\<rparr> =
     Some (Inl (AssertionError []), Suc 0,
           \<lparr>pstate = [(''logs/a'', ''GLACIER'', 0), (''logs/ab'', ''GLACIER'', 0)],
            trace = [ListObjectsV2 ''b'' ''logs/a'' None]\<rparr>)"
proof -
  let ?s = "[(''logs/a'', ''GLACIER'', 0::nat), (''logs/ab'', ''GLACIER'', 0)]"
  let ?rsp = "\<lparr>Contents = Some [\<lparr>Key = ''logs/a'', StorageClass = ''GLACIER''\<rparr>,
                                 \<lparr>Key = ''logs/ab'', StorageClass = ''GLACIER''\<rparr>],
               NextContinuationToken = None\<rparr>"
  have h1: "transit_once store_env ''b'' [] StandardClass \<lparr>pstate = ?s, trace = []\<rparr>
              = (Inr False, \<lparr>pstate = ?s, trace = []\<rparr>)"
    by (simp add: transit_once_def)
  have h2: "list_objects_v2 store_env ''b'' ''logs/a'' None (pstate \<lparr>pstate = ?s, trace = []\<rparr>)
              = (Inr ?rsp, ?s)"
    by (simp add: store_env_def store_list_def startswith_def)
  have h3: "case Contents ?rsp of None \<Rightarrow> True | Some objs \<Rightarrow> length objs \<noteq> 1"
    by simp
  show ?thesis
    using relist_not_single_aborts[OF h1 h2 h3, of "[''logs/ab'']" 3600 0] by simp
qed

text \<open>
  C9, counterexample. The key is no longer in the bucket: the listing has no \<open>Contents\<close>
  entry and the run ends with a \<open>KeyError\<close>, not with a failed assertion.
\<close>

theorem deleted_key_raises_KeyError:
  "transit_glacier_objects store_env ''b'' [''gone''] StandardClass 3600
       \<lparr>pstate = [], trace = []\<rparr> =
     Some (Inl (KeyError ''Contents''), 1,
           \<lparr>pstate = [], trace = [ListObjectsV2 ''b'' ''gone'' None]\<rparr>)"
  by (simp add: transit_glacier_objects_def transit_loop.simps transit_once_def transit_key_def
        transit_try_def effects store_env_def store_list_def)

lemma listed_append: "listed (a @ b) = listed a @ listed b"
  by (induction a rule: listed.induct) simp_all

lemma transit_key_listed:
  "listed (trace (snd (transit_key s3 bucket key sc w))) = listed (trace w) @ [key]"
  by (cases "list_objects_v2 s3 bucket key None (pstate w)";
      cases "copy_object s3 bucket key (StorageClass_str sc)
               (snd (list_objects_v2 s3 bucket key None (pstate w)))")
     (auto simp add: transit_key_def transit_try_def effects listed_append
           split: sum.splits option.splits list.splits exn.splits prod.splits)

lemma transit_keys_listed:
  "transit_keys s3 bucket keys sc has w = (Inr has', w')
     \<Longrightarrow> listed (trace w') = listed (trace w) @ keys"
proof (induction keys arbitrary: has w)
  case Nil
  then show ?case by simp
next
  case (Cons key keys)
  obtain r w1 where k: "transit_key s3 bucket key sc w = (r, w1)"
    by (cases "transit_key s3 bucket key sc w")
  with Cons.prems obtain p where r: "r = Inr p"
    by (cases r) auto
  from Cons.prems k r have "transit_keys s3 bucket keys sc (has \<or> p) w1 = (Inr has', w')"
    by simp
  from Cons.IH[OF this] transit_key_listed[of s3 bucket key sc w] k
  show ?case by simp
qed

text \<open>
  C1 (amended). The poller keeps no record of finished keys. A cycle that runs to its
  end has listed every key of the batch once, in order, whatever happened to the key in
  earlier cycles. A key whose listing shows exactly one object of a storage class other
  than \<open>GLACIER\<close> is skipped in that cycle: after the listing call it gets a debug line
  and no copy call.
\<close>

theorem every_cycle_relists:
  "(transit_once s3 bucket keys storage_class w = (Inr has, w')
      \<longrightarrow> listed (trace w') = listed (trace w) @ keys)
   \<and> (list_objects_v2 s3 bucket key None (pstate w) = (Inr rsp, s1)
        \<and> Contents rsp = Some [obj] \<and> StorageClass obj \<noteq> ''GLACIER''
      \<longrightarrow> transit_key s3 bucket key storage_class w =
            (Inr False,
             \<lparr>pstate = s1,
              trace = trace w @
                [ListObjectsV2 bucket key None,
                 Log Debug (Msg (''Skipping '' @ quoted key
                                 @ '' because it it no longer a GLACIER object''))]\<rparr>))"
  by (auto simp add: transit_once_def transit_keys_listed transit_key_def transit_try_def effects)

lemmas run_simps =
  transit_glacier_objects_def transit_once_def transit_key_def transit_try_def effects
  store_env_def store_list_def startswith_def quoted_def

lemma two_keys_run:
  "transit_glacier_objects store_env ''b'' [''k1'', ''k2''] StandardClass 3600 two_keys
     = Some (Inr (), 2, two_keys_final)"
  unfolding two_keys_def two_keys_final_def transit_glacier_objects_def
  apply (subst transit_loop.simps)
  apply (simp add: run_simps)
  apply (subst transit_loop.simps)
  apply (simp add: run_simps)
  done

text \<open>
  C1, counterexample. Two keys; the provider refuses the copy of \<open>k1\<close> once. \<open>k2\<close> is
  copied in the first cycle, and the second cycle lists it again.
\<close>

theorem finished_key_is_listed_again:
  "transit_glacier_objects store_env ''b'' [''k1'', ''k2''] StandardClass 3600 two_keys
     = Some (Inr (), 2, two_keys_final)
   \<and> provider_calls (trace two_keys_final) =
       [ListObjectsV2 ''b'' ''k1'' None, CopyObject ''b'' ''k1'' ''STANDARD'',
        ListObjectsV2 ''b'' ''k2'' None, CopyObject ''b'' ''k2'' ''STANDARD'',
        ListObjectsV2 ''b'' ''k1'' None, CopyObject ''b'' ''k1'' ''STANDARD'',
        ListObjectsV2 ''b'' ''k2'' None]"
  using two_keys_run by (simp add: two_keys_final_def provider_calls_def)

theorem every_cycle_relists_witness:
  "listed (trace (snd (transit_once store_env ''b'' [''k1'', ''k2''] StandardClass
       \<lparr>pstate = [(''k1'', ''GLACIER'', 0), (''k2'', ''STANDARD'', 0)], trace = []\<rparr>)))
     = [''k1'', ''k2'']
   \<and> transit_key store_env ''b'' ''k2'' StandardClass
        \<lparr>pstate = [(''k1'', ''GLACIER'', 0), (''k2'', ''STANDARD'', 0)], trace = []\<rparr> =
       (Inr False,
        \<lparr>pstate = [(''k1'', ''GLACIER'', 0), (''k2'', ''STANDARD'', 0)],
         trace =
           [ListObjectsV2 ''b'' ''k2'' None,
            Log Debug (Msg (''Skipping '' @ quoted ''k2''
                            @ '' because it it no longer a GLACIER object''))]\<rparr>)"
proof -
  let ?s = "[(''k1'', ''GLACIER'', 0::nat), (''k2'', ''STANDARD'', 0)]"
  let ?w = "\<lparr>pstate = ?s, trace = []\<rparr>"
  let ?w' = "snd (transit_once store_env ''b'' [''k1'', ''k2''] StandardClass ?w)"
  have h1: "transit_once store_env ''b'' [''k1'', ''k2''] StandardClass ?w = (Inr False, ?w')"
    by (simp add: run_simps)
  have h2: "list_objects_v2 store_env ''b'' ''k2'' None (pstate ?w)
              = (Inr \<lparr>Contents = Some [\<lparr>Key = ''k2'', StorageClass = ''STANDARD''\<rparr>],
                      NextContinuationToken = None\<rparr>, ?s)
            \<and> Contents \<lparr>Contents = Some [\<lparr>Key = ''k2'', StorageClass = ''STANDARD''\<rparr>],
                         NextContinuationToken = None\<rparr>
                = Some [\<lparr>Key = ''k2'', StorageClass = ''STANDARD''\<rparr>]
            \<and> StorageClass \<lparr>Key = ''k2'', StorageClass = ''STANDARD''\<rparr> \<noteq> ''GLACIER''"
    by (simp add: store_env_def store_list_def startswith_def)
  note t = every_cycle_relists[of store_env "''b''" "[''k1'', ''k2'']" StandardClass ?w False ?w'
             "''k2''" _ ?s]
  from t[THEN conjunct1, THEN mp, OF h1] t[THEN conjunct2, THEN mp, OF h2] h1
  show ?thesis by simp
qed

lemma collect_keys:
  "fst (collect glacier print objs keys w) = keys @ map Key (filter (selected glacier) objs)"
  by (induction objs arbitrary: keys w) (auto simp add: selected_def)

lemma page_index_token [simp]: "page_index (Some (page_token i)) = i"
  by (simp add: page_index_def page_token_def)

lemma list_objects_loop_pages:
  assumes L: "\<forall>token s. list_objects_v2 s3 bucket prefix token s = paged_listing pages token s"
  shows "page_index token = i \<Longrightarrow>
         \<exists>w'. list_objects_loop s3 bucket prefix glacier print token keys w =
                 Some (Inr (keys @ map Key (filter (selected glacier) (concat (drop i pages)))), w')"
proof (induction "length pages - i" arbitrary: i token keys w)
  case 0
  then have ge: "length pages \<le> i" by simp
  show ?case
    using ge 0(2) L
    by (subst list_objects_loop.simps)
       (simp add: call_list_objects_v2_def paged_listing_def Let_def)
next
  case (Suc d)
  then have lt: "i < length pages" by simp
  let ?w0 = "\<lparr>pstate = pstate w, trace = trace w @ [ListObjectsV2 bucket prefix token]\<rparr>"
  obtain keys' w1 where c: "collect glacier print (pages ! i) keys ?w0 = (keys', w1)"
    by (cases "collect glacier print (pages ! i) keys ?w0")
  have k': "keys' = keys @ map Key (filter (selected glacier) (pages ! i))"
    using collect_keys[of glacier print "pages ! i" keys ?w0] c by simp
  have split: "concat (drop i pages) = pages ! i @ concat (drop (Suc i) pages)"
    using lt by (simp add: Cons_nth_drop_Suc[symmetric])
  have step: "list_objects_loop s3 bucket prefix glacier print token keys w =
                (if Suc i < length pages
                 then list_objects_loop s3 bucket prefix glacier print
                        (Some (page_token (Suc i))) keys' w1
                 else Some (Inr keys', w1))"
  proof (cases "pages ! i = []")
    case True
    with c have "keys' = keys" "w1 = ?w0" by simp_all
    then show ?thesis
      using True lt Suc(3) L
      by (subst list_objects_loop.simps)
         (simp add: call_list_objects_v2_def paged_listing_def Let_def)
  next
    case False
    then show ?thesis
      using lt Suc(3) L c
      by (subst list_objects_loop.simps)
         (simp add: call_list_objects_v2_def paged_listing_def Let_def)
  qed
  show ?case
  proof (cases "Suc i < length pages")
    case True
    have d: "d = length pages - Suc i" using Suc(2) by simp
    from Suc(1)[OF d, of "Some (page_token (Suc i))" keys' w1]
    obtain w' where
      "list_objects_loop s3 bucket prefix glacier print (Some (page_token (Suc i))) keys' w1 =
         Some (Inr (keys' @ map Key (filter (selected glacier) (concat (drop (Suc i) pages)))), w')"
      by auto
    then show ?thesis
      using True step k' split by simp
  next
    case False
    then have "drop (Suc i) pages = []" by simp
    then show ?thesis
      using False step k' split by simp
  qed
qed

text \<open>
  C5. Let the provider hold \<open>objects\<close> and answer the listing of \<open>prefix\<close> with the
  objects whose key starts with \<open>prefix\<close>, in listing order, cut into \<open>pages\<close> at any
  places (empty pages included), each page but the last carrying a continuation token.
  Then \<open>list_objects\<close> returns, and returns exactly the keys of those objects in listing
  order; with \<open>glacier = True\<close> it returns exactly those among them whose storage class
  is \<open>GLACIER\<close>.
\<close>

theorem list_objects_pagination_transparent:
  assumes "\<forall>token s. list_objects_v2 s3 bucket prefix token s = paged_listing pages token s"
      and "concat pages = filter (\<lambda>obj. startswith (Key obj) prefix) objects"
  shows "(\<exists>w'. list_objects s3 bucket prefix False print w =
            Some (Inr (map Key (filter (\<lambda>obj. startswith (Key obj) prefix) objects)), w'))
       \<and> (\<exists>w'. list_objects s3 bucket prefix True print w =
            Some (Inr (map Key (filter (\<lambda>obj. StorageClass obj = ''GLACIER'')
                                  (filter (\<lambda>obj. startswith (Key obj) prefix) objects))), w'))"
proof -
  have i: "page_index None = 0" by (simp add: page_index_def)
  from list_objects_loop_pages[OF assms(1) i, of False print "[]" w]
       list_objects_loop_pages[OF assms(1) i, of True print "[]" w]
  show ?thesis
    using assms(2) by (simp add: list_objects_def selected_def)
qed

theorem list_objects_pagination_transparent_witness:
  "(\<exists>w'. list_objects
            (paged_env [[\<lparr>Key = ''logs/a'', StorageClass = ''GLACIER''\<rparr>,
                         \<lparr>Key = ''logs/b'', StorageClass = ''STANDARD''\<rparr>],
                        [],
                        [\<lparr>Key = ''logs/d'', StorageClass = ''GLACIER''\<rparr>]])
            ''b'' ''logs/'' False False \<lparr>pstate = (), trace = []\<rparr> =
          Some (Inr [''logs/a'', ''logs/b'', ''logs/d''], w'))
   \<and> (\<exists>w'. list_objects
            (paged_env [[\<lparr>Key = ''logs/a'', StorageClass = ''GLACIER''\<rparr>,
                         \<lparr>Key = ''logs/b'', StorageClass = ''STANDARD''\<rparr>],
                        [],
                        [\<lparr>Key = ''logs/d'', StorageClass = ''GLACIER''\<rparr>]])
            ''b'' ''logs/'' True False \<lparr>pstate = (), trace = []\<rparr> =
          Some (Inr [''logs/a'', ''logs/d''], w'))"
proof -
  let ?pages = "[[\<lparr>Key = ''logs/a'', StorageClass = ''GLACIER''\<rparr>,
                  \<lparr>Key = ''logs/b'', StorageClass = ''STANDARD''\<rparr>],
                 [],
                 [\<lparr>Key = ''logs/d'', StorageClass = ''GLACIER''\<rparr>]]"
  let ?objects = "[\<lparr>Key = ''logs/a'', StorageClass = ''GLACIER''\<rparr>,
                   \<lparr>Key = ''logs/b'', StorageClass = ''STANDARD''\<rparr>,
                   \<lparr>Key = ''other/c'', StorageClass = ''GLACIER''\<rparr>,
                   \<lparr>Key = ''logs/d'', StorageClass = ''GLACIER''\<rparr>]"
  have h1: "\<forall>token s. list_objects_v2 (paged_env ?pages) ''b'' ''logs/'' token s
              = paged_listing ?pages token s"
    by (simp add: paged_env_def stub_def)
  have h2: "concat ?pages = filter (\<lambda>obj. startswith (Key obj) ''logs/'') ?objects"
    by (simp add: startswith_def)
  show ?thesis
    using list_objects_pagination_transparent[OF h1 h2, of False "\<lparr>pstate = (), trace = []\<rparr>"]
    by (simp add: startswith_def)
qed

lemma collect_keeps: "set (trace w) \<subseteq> set (trace (snd (collect glacier print objs keys w)))"
proof (induction objs arbitrary: keys w)
  case Nil
  then show ?case by simp
next
  case (Cons obj objs)
  have a: "set (trace w) \<subseteq> set (trace (logger Debug (Msg (Key obj)) w))"
    by (auto simp add: logger_def)
  show ?case
    using Cons.IH[where keys = "keys @ [Key obj]" and w = "logger Debug (Msg (Key obj)) w"]
          Cons.IH[where keys = "keys @ [Key obj]" and w = w] Cons.IH[where keys = keys and w = w] a
    by auto
qed

lemma list_objects_loop_calls:
  assumes "list_objects_loop s3 bucket prefix glacier print kwargs keys w = Some y"
  shows "set (trace w) \<subseteq> set (trace (snd y))
         \<and> ListObjectsV2 bucket prefix kwargs \<in> set (trace (snd y))"
proof (rule list_objects_loop.raw_induct
         [where P = "\<lambda>s3 bucket prefix glacier print kwargs keys w y.
                       set (trace w) \<subseteq> set (trace (snd y))
                       \<and> ListObjectsV2 bucket prefix kwargs \<in> set (trace (snd y))",
          OF _ assms], goal_cases)
  case (1 loop s3 bucket prefix glacier print kwargs keys w y)
  obtain x s1 where l: "list_objects_v2 s3 bucket prefix kwargs (pstate w) = (x, s1)"
    by (cases "list_objects_v2 s3 bucket prefix kwargs (pstate w)")
  let ?w1 = "\<lparr>pstate = s1, trace = trace w @ [ListObjectsV2 bucket prefix kwargs]\<rparr>"
  show ?case
  proof (cases x)
    case (Inl e)
    with 1(2) l show ?thesis by (auto simp add: call_list_objects_v2_def)
  next
    case (Inr rsp)
    obtain keys2 w2 where c:
      "(case Contents rsp of None \<Rightarrow> (keys, ?w1)
        | Some objs \<Rightarrow> collect glacier print objs keys ?w1) = (keys2, w2)"
      by (cases "(case Contents rsp of None \<Rightarrow> (keys, ?w1)
        | Some objs \<Rightarrow> collect glacier print objs keys ?w1)")
    have g: "set (trace ?w1) \<subseteq> set (trace w2)"
    proof (cases "Contents rsp")
      case None
      with c show ?thesis by auto
    next
      case (Some objs)
      with c have "w2 = snd (collect glacier print objs keys ?w1)" by simp
      then show ?thesis using collect_keeps[of ?w1 glacier print objs keys] by simp
    qed
    show ?thesis
    proof (cases "NextContinuationToken rsp")
      case None
      with 1(2) l Inr c have "snd y = w2" by (auto simp add: call_list_objects_v2_def)
      with g show ?thesis by auto
    next
      case (Some tok)
      with 1(2) l Inr c have "loop s3 bucket prefix glacier print (Some tok) keys2 w2 = Some y"
        by (simp add: call_list_objects_v2_def)
      from 1(1)[OF this] g show ?thesis by auto
    qed
  qed
qed


lemma impl_keeps: "set (trace w) \<subseteq> set (trace (snd (impl s3 bucket key days tier w)))"
  by (cases "restore_object s3 bucket key days (Tier_str tier) (pstate w)")
     (auto simp add: impl_def effects split: sum.splits)

lemma restore_catching_keeps:
  "set (trace w) \<subseteq> set (trace (snd (restore_catching s3 bucket keys days tier coe w)))"
proof (induction keys arbitrary: w)
  case Nil
  then show ?case by simp
next
  case (Cons key keys)
  obtain r w1 where i: "impl s3 bucket key days tier w = (r, w1)"
    by (cases "impl s3 bucket key days tier w")
  with impl_keeps[of w s3 bucket key days tier] have g: "set (trace w) \<subseteq> set (trace w1)"
    by simp
  have l: "\<And>lvl a v. set (trace v) \<subseteq> set (trace (logger lvl a v))"
    by (auto simp add: logger_def)
  show ?case
    using i g Cons.IH[of w1] Cons.IH[of "logger Warning (Exn (ClientError c)) w1" for c]
      Cons.IH[of "logger Warning m (logger Error (Exn (ClientError c)) w1)" for m c]
      l[of w1] l[of "logger Error a w1" for a]
    by (auto split: sum.splits exn.splits) blast+
qed


lemma restore_uncaught_keeps:
  "set (trace w) \<subseteq> set (trace (snd (restore_uncaught s3 bucket keys days tier w)))"
proof (induction keys arbitrary: w)
  case Nil
  then show ?case by simp
next
  case (Cons key keys)
  obtain r w1 where i: "impl s3 bucket key days tier w = (r, w1)"
    by (cases "impl s3 bucket key days tier w")
  with impl_keeps[of w s3 bucket key days tier] have g: "set (trace w) \<subseteq> set (trace w1)"
    by simp
  show ?case
    using i g Cons.IH[of w1] by (auto split: sum.splits)
qed

lemma restore_glacier_objects_keeps:
  "set (trace w) \<subseteq> set (trace (snd (restore_glacier_objects s3 bucket keys days tier c1 c2 w)))"
  by (simp add: restore_glacier_objects_def restore_catching_keeps restore_uncaught_keeps)

lemma transit_key_keeps:
  "set (trace w) \<subseteq> set (trace (snd (transit_key s3 bucket key sc w)))"
  by (cases "list_objects_v2 s3 bucket key None (pstate w)";
      cases "copy_object s3 bucket key (StorageClass_str sc)
               (snd (list_objects_v2 s3 bucket key None (pstate w)))")
     (auto simp add: transit_key_def transit_try_def effects
           split: sum.splits option.splits list.splits exn.splits prod.splits)

lemma transit_keys_keeps:
  "set (trace w) \<subseteq> set (trace (snd (transit_keys s3 bucket keys sc has w)))"
proof (induction keys arbitrary: has w)
  case Nil
  then show ?case by simp
next
  case (Cons key keys)
  obtain r w1 where k: "transit_key s3 bucket key sc w = (r, w1)"
    by (cases "transit_key s3 bucket key sc w")
  with transit_key_keeps[of w s3 bucket key sc] have g: "set (trace w) \<subseteq> set (trace w1)"
    by simp
  show ?case
    using k g Cons.IH[of w1] by (auto split: sum.splits)
qed

lemma transit_loop_keeps:
  assumes "transit_loop s3 bucket keys sc poll n w = Some y"
  shows "set (trace w) \<subseteq> set (trace (snd (snd y)))"
proof (rule transit_loop.raw_induct
         [where P = "\<lambda>s3 bucket keys sc poll n w y. set (trace w) \<subseteq> set (trace (snd (snd y)))",
          OF _ assms], goal_cases)
  case (1 loop s3 bucket keys sc poll n w y)
  obtain r w1 where t: "transit_once s3 bucket keys sc w = (r, w1)"
    by (cases "transit_once s3 bucket keys sc w")
  with transit_keys_keeps[of w s3 bucket keys sc False] have g: "set (trace w) \<subseteq> set (trace w1)"
    by (simp add: transit_once_def)
  obtain x w2 where s: "time_sleep s3 poll w1 = (x, w2)"
    by (cases "time_sleep s3 poll w1")
  then have g2: "set (trace w1) \<subseteq> set (trace w2)"
    by (auto simp add: time_sleep_def split: if_splits)
  show ?case
  proof (cases r)
    case (Inl e)
    with 1(2) t g show ?thesis by auto
  next
    case (Inr has)
    show ?thesis
    proof (cases has)
      case False
      with 1(2) t g Inr show ?thesis by auto
    next
      case True
      show ?thesis
      proof (cases x)
        case (Inl e)
        with 1(2) t s g g2 Inr True show ?thesis by auto
      next
        case (Inr u)
        with 1(2) t s \<open>r = Inr has\<close> True have "loop s3 bucket keys sc poll (Suc n) w2 = Some y"
          by simp
        from 1(1)[OF this] g g2 show ?thesis by auto
      qed
    qed
  qed
qed

lemma restore_rest:
  "(case list_objects s3 bucket prefix True False w3 of
      None \<Rightarrow> None
    | Some (Inl e, w4) \<Rightarrow> Some (Inl e, w4)
    | Some (Inr keys, w4) \<Rightarrow>
        (case restore_glacier_objects s3 bucket keys days tier True True w4 of
           (Inl e, w5) \<Rightarrow> Some (Inl e, w5)
         | (Inr u, w5) \<Rightarrow> Some (Inr (), logger Info m w5))) = Some (r, w')
   \<Longrightarrow> set (trace w3) \<subseteq> set (trace w')
       \<and> ListObjectsV2 bucket prefix None \<in> set (trace w')"
proof -
  assume a: "(case list_objects s3 bucket prefix True False w3 of
      None \<Rightarrow> None
    | Some (Inl e, w4) \<Rightarrow> Some (Inl e, w4)
    | Some (Inr keys, w4) \<Rightarrow>
        (case restore_glacier_objects s3 bucket keys days tier True True w4 of
           (Inl e, w5) \<Rightarrow> Some (Inl e, w5)
         | (Inr u, w5) \<Rightarrow> Some (Inr (), logger Info m w5))) = Some (r, w')"
  then obtain x w4 where l: "list_objects s3 bucket prefix True False w3 = Some (x, w4)"
    by (cases "list_objects s3 bucket prefix True False w3") auto
  from list_objects_loop_calls[OF l[unfolded list_objects_def]]
  have in4: "set (trace w3) \<subseteq> set (trace w4)
             \<and> ListObjectsV2 bucket prefix None \<in> set (trace w4)" by simp
  show ?thesis
  proof (cases x)
    case (Inl e)
    with a l in4 show ?thesis by simp
  next
    case (Inr keys)
    obtain z w5 where rr: "restore_glacier_objects s3 bucket keys days tier True True w4 = (z, w5)"
      by (cases "restore_glacier_objects s3 bucket keys days tier True True w4")
    with restore_glacier_objects_keeps[of w4 s3 bucket keys days tier True True]
    have "set (trace w3) \<subseteq> set (trace w5)
          \<and> ListObjectsV2 bucket prefix None \<in> set (trace w5)" using in4 by auto
    with a l Inr rr show ?thesis
      by (cases z) (auto simp add: logger_def)
  qed
qed


lemma transit_rest:
  assumes a: "(case list_objects s3 bucket prefix True False w3 of
      None \<Rightarrow> None
    | Some (Inl e, w4) \<Rightarrow> Some (Inl e, w4)
    | Some (Inr keys, w4) \<Rightarrow>
        (case restore_glacier_objects s3 bucket keys days tier True True w4 of
           (Inl e, w5) \<Rightarrow> Some (Inl e, w5)
         | (Inr u, w5) \<Rightarrow>
             (case transit_glacier_objects s3 bucket keys sc poll w5 of
                None \<Rightarrow> None
              | Some (Inl e, n, w6) \<Rightarrow> Some (Inl e, w6)
              | Some (Inr u, n, w6) \<Rightarrow> Some (Inr (), logger Info m w6)))) = Some (r, w')"
  shows "set (trace w3) \<subseteq> set (trace w')
         \<and> ListObjectsV2 bucket prefix None \<in> set (trace w')"
proof -
  from a obtain x w4 where l: "list_objects s3 bucket prefix True False w3 = Some (x, w4)"
    by (cases "list_objects s3 bucket prefix True False w3") auto
  from list_objects_loop_calls[OF l[unfolded list_objects_def]]
  have in4: "set (trace w3) \<subseteq> set (trace w4)
             \<and> ListObjectsV2 bucket prefix None \<in> set (trace w4)" by simp
  show ?thesis
  proof (cases x)
    case (Inl e)
    with a l in4 show ?thesis by simp
  next
    case (Inr keys)
    obtain z w5 where rr: "restore_glacier_objects s3 bucket keys days tier True True w4 = (z, w5)"
      by (cases "restore_glacier_objects s3 bucket keys days tier True True w4")
    with restore_glacier_objects_keeps[of w4 s3 bucket keys days tier True True]
    have in5: "set (trace w3) \<subseteq> set (trace w5)
          \<and> ListObjectsV2 bucket prefix None \<in> set (trace w5)" using in4 by auto
    show ?thesis
    proof (cases z)
      case (Inl e)
      with a l Inr rr in5 show ?thesis by simp
    next
      case zr: (Inr u)
      with a l Inr rr obtain q n w6 where
        t: "transit_glacier_objects s3 bucket keys sc poll w5 = Some (q, n, w6)"
        by (cases "transit_glacier_objects s3 bucket keys sc poll w5") auto
      from transit_loop_keeps[OF t[unfolded transit_glacier_objects_def]] in5
      have in6: "set (trace w3) \<subseteq> set (trace w6)
          \<and> ListObjectsV2 bucket prefix None \<in> set (trace w6)" by auto
      with a l Inr rr zr t show ?thesis
        by (cases q) (auto simp add: logger_def)
    qed
  qed
qed

lemma isdigit_nonempty: "isdigit d \<Longrightarrow> d \<noteq> []"
  by (simp add: isdigit_def)

lemma int_str_raises_ValueError: "int_str d = Inl e \<Longrightarrow> \<exists>m. e = ValueError m"
  by (auto simp add: int_str_def Let_def split: if_splits)

lemma digits_nonneg: "0 \<le> a \<Longrightarrow> 0 \<le> foldl (\<lambda>a c. 10 * a + int (f c)) a s"
  by (induction s arbitrary: a) simp_all

lemma int_str_nonneg: "int_str d = Inr n \<Longrightarrow> 0 \<le> n"
  using digits_nonneg[of 0 "\<lambda>c. the (decimal_value c)" d]
  by (auto simp add: int_str_def Let_def split: if_splits)

lemma int_str_returns:
  "d \<noteq> [] \<Longrightarrow>
     (\<exists>n. int_str d = Inr n)
       = (list_all (\<lambda>c. decimal_value c \<noteq> None) d \<and> length d \<le> 4300)"
proof -
  assume ne: "d \<noteq> []"
  let ?run = "takeWhile (\<lambda>c. decimal_value c \<noteq> None) d"
  have all: "(?run = d) = list_all (\<lambda>c. decimal_value c \<noteq> None) d"
    by (simp add: takeWhile_eq_all_conv list_all_iff)
  show ?thesis
  proof (cases "?run = d")
    case True
    have "int_str d =
            (if 4300 < length d
             then Inl (ValueError
                    (''Exceeds the limit (4300 digits) for integer string conversion: value has ''
                     @ str_nat (length d)
                     @ '' digits; use sys.set_int_max_str_digits() to increase the limit''))
             else Inr (foldl (\<lambda>a c. 10 * a + int (the (decimal_value c))) 0 d))"
      unfolding int_str_def Let_def True using ne by simp
    with all True show ?thesis by auto
  next
    case False
    then have "\<exists>e. int_str d = Inl e"
      unfolding int_str_def Let_def by simp
    with all False show ?thesis by auto
  qed
qed

lemma main_invalid_days:
  assumes "args_op args = OpRestore \<or> args_op args = OpTransit"
      and "case args_days args of None \<Rightarrow> True | Some d \<Rightarrow> \<not> isdigit d"
  shows "main s3 args w =
           Some (Inl (AssertionError ''--days must be set to an integer''),
                 w\<lparr>trace := trace w @ prelude args\<rparr>)"
  using assms
  by (auto simp add: main_def Let_def days_and_tier_def logger_def prelude_def prefix_arg_def
           split: option.splits)

lemma main_int_raises:
  assumes "args_op args = OpRestore \<or> args_op args = OpTransit"
      and "args_days args = Some d" "isdigit d" "int_str d = Inl e"
  shows "main s3 args w = Some (Inl e, w\<lparr>trace := trace w @ prelude args\<rparr>)"
  using assms isdigit_nonempty[of d]
  by (auto simp add: main_def Let_def days_and_tier_def logger_def prelude_def prefix_arg_def)

lemma main_no_tier:
  assumes "args_op args = OpRestore \<or> args_op args = OpTransit"
      and "args_days args = Some d" "isdigit d" "int_str d = Inr n" "args_tier args = None"
  shows "main s3 args w =
           Some (Inl (AssertionError ''--tier must be set''),
                 w\<lparr>trace := trace w @ prelude args
                      @ [Log Debug (Msg (''Restore retrieval days: '' @ str_int n))]\<rparr>)"
  using assms isdigit_nonempty[of d]
  by (auto simp add: main_def Let_def days_and_tier_def logger_def prelude_def prefix_arg_def)

lemma main_no_storage_class:
  assumes "args_op args = OpTransit"
      and "args_days args = Some d" "isdigit d" "int_str d = Inr n" "args_tier args = Some t"
      and "args_storage_class args = None"
  shows "main s3 args w =
           Some (Inl (AssertionError ''--storage-class must be set''),
                 w\<lparr>trace := trace w @ prelude args
                      @ [Log Debug (Msg (''Restore retrieval days: '' @ str_int n)),
                         Log Debug (Msg (''Restore retrieval tier: '' @ Tier_str t))]\<rparr>)"
  using assms isdigit_nonempty[of d]
  by (auto simp add: main_def Let_def days_and_tier_def logger_def prelude_def prefix_arg_def)

lemma days_in_validated:
  "Log Debug (Msg (''Restore retrieval days: '' @ str_int n)) \<in> set (trace (validated args n t w))"
  by (simp add: validated_def)

lemma main_restore_valid:
  assumes o: "args_op args = OpRestore"
      and d: "args_days args = Some d" "isdigit d" "int_str d = Inr n" "args_tier args = Some t"
      and l: "list_objects s3 (args_bucket args) (prefix_arg args) True False
                (validated args n t w) = Some (lr, w4)"
  shows "\<exists>r w'. main s3 args w = Some (r, w')
           \<and> Log Debug (Msg (''Restore retrieval days: '' @ str_int n)) \<in> set (trace w')
           \<and> ListObjectsV2 (args_bucket args) (prefix_arg args) None \<in> set (trace w')"
proof -
  let ?rest = "case list_objects s3 (args_bucket args) (prefix_arg args) True False
                      (validated args n t w) of
                 None \<Rightarrow> None
               | Some (Inl e, w4) \<Rightarrow> Some (Inl e, w4)
               | Some (Inr keys, w4) \<Rightarrow>
                   (case restore_glacier_objects s3 (args_bucket args) keys n t True True w4 of
                      (Inl e, w5) \<Rightarrow> Some (Inl e, w5)
                    | (Inr u, w5) \<Rightarrow>
                        Some (Inr (),
                              logger Info (Msg ''Done listing and restoring Glacier objects!'') w5))"
  have m: "main s3 args w = ?rest"
    using o d isdigit_nonempty[of d]
    by (cases "args_storage_class args")
       (simp_all add: main_def Let_def days_and_tier_def prefix_arg_def validated_def
                      prelude_def logger_def)
  have "\<exists>y. ?rest = Some y"
    using l by (auto split: sum.splits prod.splits)
  then obtain r w' where r: "?rest = Some (r, w')" by auto
  from restore_rest[OF r] days_in_validated[of n args t w] m r show ?thesis by auto
qed

lemma main_transit_valid:
  assumes o: "args_op args = OpTransit"
      and d: "args_days args = Some d" "isdigit d" "int_str d = Inr n" "args_tier args = Some t"
      and c: "args_storage_class args = Some c"
      and l: "list_objects s3 (args_bucket args) (prefix_arg args) True False
                (validated args n t w) = Some (lr, w4)"
      and p: "\<And>keys w5. lr = Inr keys
                \<Longrightarrow> restore_glacier_objects s3 (args_bucket args) keys n t True True w4
                       = (Inr (), w5)
                \<Longrightarrow> transit_glacier_objects s3 (args_bucket args) keys c
                       (args_poll_seconds args) w5 \<noteq> None"
  shows "\<exists>r w'. main s3 args w = Some (r, w')
           \<and> Log Debug (Msg (''Restore retrieval days: '' @ str_int n)) \<in> set (trace w')
           \<and> ListObjectsV2 (args_bucket args) (prefix_arg args) None \<in> set (trace w')"
proof -
  let ?rest = "case list_objects s3 (args_bucket args) (prefix_arg args) True False
                      (validated args n t w) of
                 None \<Rightarrow> None
               | Some (Inl e, w4) \<Rightarrow> Some (Inl e, w4)
               | Some (Inr keys, w4) \<Rightarrow>
                   (case restore_glacier_objects s3 (args_bucket args) keys n t True True w4 of
                      (Inl e, w5) \<Rightarrow> Some (Inl e, w5)
                    | (Inr u, w5) \<Rightarrow>
                        (case transit_glacier_objects s3 (args_bucket args) keys c
                                (args_poll_seconds args) w5 of
                           None \<Rightarrow> None
                         | Some (Inl e, n, w6) \<Rightarrow> Some (Inl e, w6)
                         | Some (Inr u, n, w6) \<Rightarrow>
                             Some (Inr (),
                                   logger Info
                                     (Msg ''Done listing, restoring and transiting Glacier objects!'')
                                     w6)))"
  have m: "main s3 args w = ?rest"
    using o d c isdigit_nonempty[of d]
    by (simp add: main_def Let_def days_and_tier_def prefix_arg_def validated_def prelude_def
                  logger_def)
  have "\<exists>y. ?rest = Some y"
  proof (cases lr)
    case (Inl e)
    with l show ?thesis by simp
  next
    case (Inr keys)
    obtain rr w5 where rg:
      "restore_glacier_objects s3 (args_bucket args) keys n t True True w4 = (rr, w5)"
      by (cases "restore_glacier_objects s3 (args_bucket args) keys n t True True w4")
    show ?thesis
    proof (cases rr)
      case (Inl e)
      with l Inr rg show ?thesis by simp
    next
      case u: (Inr u)
      with p[OF Inr] rg obtain y where
        "transit_glacier_objects s3 (args_bucket args) keys c (args_poll_seconds args) w5
           = Some y" by auto
      with l Inr rg u show ?thesis
        by (cases y) (auto split: sum.splits)
    qed
  qed
  then obtain r w' where r: "?rest = Some (r, w')" by auto
  from transit_rest[OF r] days_in_validated[of n args t w] m r show ?thesis by auto
qed

text \<open>
  C6 (amended). For the restore and transit operations \<open>--days\<close> is checked before any
  provider call. When it is absent, empty or holds a character that is not a digit, the
  run ends with the \<open>AssertionError\<close> of line 266 (278) after the three opening effects,
  none of which is a provider call. When it is a string of digits that \<open>int\<close> refuses, the
  run ends in the same world with the \<open>ValueError\<close> of line 267 (279). \<open>int\<close> accepts a
  string of digits exactly when all of them are decimal and there are at most 4300. The
  number it returns may be zero; the run then logs it, and ends with an \<open>AssertionError\<close>
  when \<open>--tier\<close> (or, for transit, \<open>--storage-class\<close>) is absent. Otherwise the run goes on
  to the listing: provided the listing returns and, for transit, the poll loop that
  follows a successful restore returns, the run ends, and it has logged the number
  of days and made the listing call.
\<close>

theorem days_validation:
  assumes "args_op args = OpRestore \<or> args_op args = OpTransit"
  shows "((case args_days args of None \<Rightarrow> True | Some d \<Rightarrow> \<not> isdigit d) \<longrightarrow>
            main s3 args w =
              Some (Inl (AssertionError ''--days must be set to an integer''),
                    w\<lparr>trace := trace w @ prelude args\<rparr>)
            \<and> provider_calls (prelude args) = [])
       \<and> (\<forall>d. args_days args = Some d \<and> isdigit d \<longrightarrow>
            (\<exists>n. int_str d = Inr n)
              = (list_all (\<lambda>c. decimal_value c \<noteq> None) d \<and> length d \<le> 4300))
       \<and> (\<forall>d e. args_days args = Some d \<and> isdigit d \<and> int_str d = Inl e \<longrightarrow>
            main s3 args w = Some (Inl e, w\<lparr>trace := trace w @ prelude args\<rparr>)
            \<and> (\<exists>m. e = ValueError m))
       \<and> (\<forall>d n. args_days args = Some d \<and> isdigit d \<and> int_str d = Inr n \<longrightarrow>
            0 \<le> n
            \<and> (args_tier args = None \<longrightarrow>
                 main s3 args w =
                   Some (Inl (AssertionError ''--tier must be set''),
                         w\<lparr>trace := trace w @ prelude args
                              @ [Log Debug (Msg (''Restore retrieval days: '' @ str_int n))]\<rparr>))
            \<and> (\<forall>t. args_tier args = Some t \<and> args_op args = OpTransit
                      \<and> args_storage_class args = None \<longrightarrow>
                 main s3 args w =
                   Some (Inl (AssertionError ''--storage-class must be set''),
                         w\<lparr>trace := trace w @ prelude args
                              @ [Log Debug (Msg (''Restore retrieval days: '' @ str_int n)),
                                 Log Debug (Msg (''Restore retrieval tier: '' @ Tier_str t))]\<rparr>))
            \<and> (\<forall>t lr w4.
                  args_tier args = Some t
                  \<and> (args_op args = OpTransit \<longrightarrow> args_storage_class args \<noteq> None)
                  \<and> list_objects s3 (args_bucket args) (prefix_arg args) True False
                      (validated args n t w) = Some (lr, w4)
                  \<and> (\<forall>c keys w5.
                        args_op args = OpTransit \<and> args_storage_class args = Some c
                        \<and> lr = Inr keys
                        \<and> restore_glacier_objects s3 (args_bucket args) keys n t True True w4
                            = (Inr (), w5)
                        \<longrightarrow> transit_glacier_objects s3 (args_bucket args) keys c
                              (args_poll_seconds args) w5 \<noteq> None)
                  \<longrightarrow> (\<exists>r w'. main s3 args w = Some (r, w')
                         \<and> Log Debug (Msg (''Restore retrieval days: '' @ str_int n))
                             \<in> set (trace w')
                         \<and> ListObjectsV2 (args_bucket args) (prefix_arg args) None
                             \<in> set (trace w'))))"
proof (intro conjI allI impI)
  assume "case args_days args of None \<Rightarrow> True | Some d \<Rightarrow> \<not> isdigit d"
  from main_invalid_days[OF assms this]
  show "main s3 args w =
          Some (Inl (AssertionError ''--days must be set to an integer''),
                w\<lparr>trace := trace w @ prelude args\<rparr>)" .
next
  show "provider_calls (prelude args) = []"
    by (simp add: provider_calls_def prelude_def)
next
  fix d assume "args_days args = Some d \<and> isdigit d"
  then show "(\<exists>n. int_str d = Inr n)
               = (list_all (\<lambda>c. decimal_value c \<noteq> None) d \<and> length d \<le> 4300)"
    using int_str_returns[of d] isdigit_nonempty[of d] by simp
next
  fix d e assume "args_days args = Some d \<and> isdigit d \<and> int_str d = Inl e"
  then show "main s3 args w = Some (Inl e, w\<lparr>trace := trace w @ prelude args\<rparr>)"
    using main_int_raises[OF assms, of d e s3 w] by simp
next
  fix d e assume "args_days args = Some d \<and> isdigit d \<and> int_str d = Inl e"
  then show "\<exists>m. e = ValueError m"
    using int_str_raises_ValueError[of d e] by simp
next
  fix d n assume "args_days args = Some d \<and> isdigit d \<and> int_str d = Inr n"
  then show "0 \<le> n" using int_str_nonneg[of d n] by simp
next
  fix d n
  assume "args_days args = Some d \<and> isdigit d \<and> int_str d = Inr n" "args_tier args = None"
  then show "main s3 args w =
               Some (Inl (AssertionError ''--tier must be set''),
                     w\<lparr>trace := trace w @ prelude args
                          @ [Log Debug (Msg (''Restore retrieval days: '' @ str_int n))]\<rparr>)"
    using main_no_tier[OF assms, of d n s3 w] by simp
next
  fix d n t
  assume "args_days args = Some d \<and> isdigit d \<and> int_str d = Inr n"
         "args_tier args = Some t \<and> args_op args = OpTransit \<and> args_storage_class args = None"
  then show "main s3 args w =
               Some (Inl (AssertionError ''--storage-class must be set''),
                     w\<lparr>trace := trace w @ prelude args
                          @ [Log Debug (Msg (''Restore retrieval days: '' @ str_int n)),
                             Log Debug (Msg (''Restore retrieval tier: '' @ Tier_str t))]\<rparr>)"
    using main_no_storage_class[of args d n t s3 w] by simp
next
  fix d n t lr w4
  assume d: "args_days args = Some d \<and> isdigit d \<and> int_str d = Inr n"
     and h: "args_tier args = Some t
             \<and> (args_op args = OpTransit \<longrightarrow> args_storage_class args \<noteq> None)
             \<and> list_objects s3 (args_bucket args) (prefix_arg args) True False
                 (validated args n t w) = Some (lr, w4)
             \<and> (\<forall>c keys w5.
                   args_op args = OpTransit \<and> args_storage_class args = Some c
                   \<and> lr = Inr keys
                   \<and> restore_glacier_objects s3 (args_bucket args) keys n t True True w4
                       = (Inr (), w5)
                   \<longrightarrow> transit_glacier_objects s3 (args_bucket args) keys c
                         (args_poll_seconds args) w5 \<noteq> None)"
  from assms
  show "\<exists>r w'. main s3 args w = Some (r, w')
          \<and> Log Debug (Msg (''Restore retrieval days: '' @ str_int n)) \<in> set (trace w')
          \<and> ListObjectsV2 (args_bucket args) (prefix_arg args) None \<in> set (trace w')"
  proof
    assume o: "args_op args = OpRestore"
    from d h show ?thesis
      using main_restore_valid[OF o, of d n t s3 w lr w4] by simp
  next
    assume o: "args_op args = OpTransit"
    with h obtain c where c: "args_storage_class args = Some c" by auto
    show ?thesis
    proof (rule main_transit_valid[OF o _ _ _ _ c, of d n t s3 w lr w4])
      show "args_days args = Some d" "isdigit d" "int_str d = Inr n" using d by simp_all
      show "args_tier args = Some t" using h by simp
      show "list_objects s3 (args_bucket args) (prefix_arg args) True False
              (validated args n t w) = Some (lr, w4)" using h by simp
    next
      fix keys w5
      assume "lr = Inr keys"
             "restore_glacier_objects s3 (args_bucket args) keys n t True True w4 = (Inr (), w5)"
      with h o c
      show "transit_glacier_objects s3 (args_bucket args) keys c (args_poll_seconds args) w5
              \<noteq> None" by blast
    qed
  qed
qed

lemma str_nat_digit: "n < 10 \<Longrightarrow> str_nat n = [char_of (48 + n)]"
  by (simp add: str_nat.simps)

lemma char_of_0: "char_of (48 :: nat) = CHR ''0''"
  by code_simp

lemma char_of_3: "char_of (51 :: nat) = CHR ''3''"
  by code_simp

lemma char_of_5: "char_of (53 :: nat) = CHR ''5''"
  by code_simp

lemmas days_simps = char_of_0 char_of_3 char_of_5
  ascii_def isdigit_def isdigit_char_def digit_ranges_def decimal_value_def decimal_ranges_def
  int_str_def Let_def str_int_def str_nat_digit

lemmas main_simps = days_simps
  main_def days_and_tier_def
  list_objects_def restore_glacier_objects_def impl_def effects
  store_env_def store_list_def startswith_def restore_args_def transit_args_def one_archived_def

lemma isdigit_abc: "\<not> isdigit (ascii ''abc'')"
  by (simp add: days_simps)

lemma isdigit_0: "isdigit (ascii ''0'') \<and> int_str (ascii ''0'') = Inr 0"
  by (simp add: days_simps)

lemma isdigit_5: "isdigit (ascii ''5'') \<and> int_str (ascii ''5'') = Inr 5"
  by (simp add: days_simps)

lemma isdigit_arabic_3: "isdigit [1635] \<and> int_str [1635] = Inr 3"
  by (simp add: days_simps)

lemma isdigit_superscript_2:
  "isdigit [178] \<and> int_str [178] = Inl (ValueError ''invalid literal for int() with base 10'')
   \<and> \<not> list_all (\<lambda>c. decimal_value c \<noteq> None) [178]"
  by (simp add: days_simps)

lemma main_days_0:
  "main store_env (restore_args (Some (ascii ''0''))) one_archived =
     Some (Inr (),
           \<lparr>pstate = [(''logs/x'', ''GLACIER'', 0)],
            trace =
              [SetLevel 10,
               Log Debug (Msg ''Bucket: b''),
               Log Debug (Msg ''Prefix: logs/''),
               Log Debug (Msg ''Restore retrieval days: 0''),
               Log Debug (Msg ''Restore retrieval tier: Standard''),
               ListObjectsV2 ''b'' ''logs/'' None,
               Log Debug (Msg (''Restoring '' @ quoted ''logs/x'')),
               RestoreObject ''b'' ''logs/x'' 0 ''Standard'',
               Log Debug (Msg (''Successfully sent Restore request for '' @ quoted ''logs/x'')),
               Log Info (Msg ''Done listing and restoring Glacier objects!'')]\<rparr>)"
  by (simp add: main_simps list_objects_loop.simps)

lemma listing_restore_5:
  "list_objects store_env ''b'' ''logs/'' True False
     (validated (restore_args (Some (ascii ''5''))) 5 Standard one_archived) =
     Some (Inr [''logs/x''],
           \<lparr>pstate = [(''logs/x'', ''GLACIER'', 0)],
            trace =
              [SetLevel 10,
               Log Debug (Msg ''Bucket: b''),
               Log Debug (Msg ''Prefix: logs/''),
               Log Debug (Msg ''Restore retrieval days: 5''),
               Log Debug (Msg ''Restore retrieval tier: Standard''),
               ListObjectsV2 ''b'' ''logs/'' None]\<rparr>)"
  by (simp add: main_simps validated_def prelude_def prefix_arg_def list_objects_loop.simps)

lemma listing_transit_3:
  "list_objects store_env ''b'' ''logs/'' True False
     (validated (transit_args (Some [1635])) 3 Standard one_archived) =
     Some (Inr [''logs/x''],
           \<lparr>pstate = [(''logs/x'', ''GLACIER'', 0)],
            trace =
              [SetLevel 10,
               Log Debug (Msg ''Bucket: b''),
               Log Debug (Msg ''Prefix: logs/''),
               Log Debug (Msg ''Restore retrieval days: 3''),
               Log Debug (Msg ''Restore retrieval tier: Standard''),
               Log Debug (Msg ''Transit storage class: STANDARD''),
               ListObjectsV2 ''b'' ''logs/'' None]\<rparr>)"
  by (simp add: main_simps validated_def prelude_def prefix_arg_def list_objects_loop.simps)

lemma poll_transit_3:
  "restore_glacier_objects store_env ''b'' [''logs/x''] 3 Standard True True
     \<lparr>pstate = [(''logs/x'', ''GLACIER'', 0)],
      trace =
        [SetLevel 10,
         Log Debug (Msg ''Bucket: b''),
         Log Debug (Msg ''Prefix: logs/''),
         Log Debug (Msg ''Restore retrieval days: 3''),
         Log Debug (Msg ''Restore retrieval tier: Standard''),
         Log Debug (Msg ''Transit storage class: STANDARD''),
         ListObjectsV2 ''b'' ''logs/'' None]\<rparr> = (Inr (), w5)
   \<Longrightarrow> transit_glacier_objects store_env ''b'' [''logs/x''] StandardClass 3600 w5 \<noteq> None"
  unfolding transit_glacier_objects_def
  by (subst transit_loop.simps) (auto simp add: main_simps run_simps)

text \<open>
  C6, counterexample. \<open>--days 0\<close> is not a positive integer, yet it passes the check: the
  run lists the bucket and asks the provider to restore for 0 days.
\<close>

theorem days_zero_is_accepted:
  "main store_env (restore_args (Some (ascii ''0''))) one_archived =
     Some (Inr (),
           \<lparr>pstate = [(''logs/x'', ''GLACIER'', 0)],
            trace =
              [SetLevel 10,
               Log Debug (Msg ''Bucket: b''),
               Log Debug (Msg ''Prefix: logs/''),
               Log Debug (Msg ''Restore retrieval days: 0''),
               Log Debug (Msg ''Restore retrieval tier: Standard''),
               ListObjectsV2 ''b'' ''logs/'' None,
               Log Debug (Msg (''Restoring '' @ quoted ''logs/x'')),
               RestoreObject ''b'' ''logs/x'' 0 ''Standard'',
               Log Debug (Msg (''Successfully sent Restore request for '' @ quoted ''logs/x'')),
               Log Info (Msg ''Done listing and restoring Glacier objects!'')]\<rparr>)
   \<and> int_str (ascii ''0'') = Inr 0"
  using main_days_0 isdigit_0 by simp

text \<open>
  The theorem at work: \<open>--days abc\<close> fails the assertion; a superscript two passes
  \<open>str.isdigit\<close> and is refused by \<open>int\<close>; \<open>--days 5\<close> without \<open>--tier\<close>, and for transit
  without \<open>--storage-class\<close>, fails the next assertion; \<open>--days 5\<close> for the restore operation
  and an Arabic-Indic three for the transit operation reach the listing.
\<close>

theorem days_validation_witness:
  "main store_env (restore_args (Some (ascii ''abc''))) one_archived =
     Some (Inl (AssertionError ''--days must be set to an integer''),
           \<lparr>pstate = [(''logs/x'', ''GLACIER'', 0)],
            trace = [SetLevel 10,
                     Log Debug (Msg ''Bucket: b''),
                     Log Debug (Msg ''Prefix: logs/'')]\<rparr>)
   \<and> main store_env (restore_args (Some [178])) one_archived =
       Some (Inl (ValueError ''invalid literal for int() with base 10''),
             \<lparr>pstate = [(''logs/x'', ''GLACIER'', 0)],
              trace = [SetLevel 10,
                       Log Debug (Msg ''Bucket: b''),
                       Log Debug (Msg ''Prefix: logs/'')]\<rparr>)
   \<and> \<not> (\<exists>n. int_str [178] = Inr n)
   \<and> main store_env ((restore_args (Some (ascii ''5'')))\<lparr>args_tier := None\<rparr>) one_archived =
       Some (Inl (AssertionError ''--tier must be set''),
             \<lparr>pstate = [(''logs/x'', ''GLACIER'', 0)],
              trace = [SetLevel 10,
                       Log Debug (Msg ''Bucket: b''),
                       Log Debug (Msg ''Prefix: logs/''),
                       Log Debug (Msg ''Restore retrieval days: 5'')]\<rparr>)
   \<and> main store_env ((transit_args (Some (ascii ''5'')))\<lparr>args_storage_class := None\<rparr>)
         one_archived =
       Some (Inl (AssertionError ''--storage-class must be set''),
             \<lparr>pstate = [(''logs/x'', ''GLACIER'', 0)],
              trace = [SetLevel 10,
                       Log Debug (Msg ''Bucket: b''),
                       Log Debug (Msg ''Prefix: logs/''),
                       Log Debug (Msg ''Restore retrieval days: 5''),
                       Log Debug (Msg ''Restore retrieval tier: Standard'')]\<rparr>)
   \<and> (\<exists>r w'. main store_env (restore_args (Some (ascii ''5''))) one_archived = Some (r, w')
          \<and> Log Debug (Msg ''Restore retrieval days: 5'') \<in> set (trace w')
          \<and> ListObjectsV2 ''b'' ''logs/'' None \<in> set (trace w'))
   \<and> (\<exists>r w'. main store_env (transit_args (Some [1635])) one_archived = Some (r, w')
          \<and> Log Debug (Msg ''Restore retrieval days: 3'') \<in> set (trace w')
          \<and> ListObjectsV2 ''b'' ''logs/'' None \<in> set (trace w'))"
proof -
  let ?R = "\<lambda>d. restore_args (Some d)"
  let ?T = "\<lambda>d. transit_args (Some d)"
  let ?Rn = "(restore_args (Some (ascii ''5'')))\<lparr>args_tier := None\<rparr>"
  let ?Tn = "(transit_args (Some (ascii ''5'')))\<lparr>args_storage_class := None\<rparr>"
  have opR: "\<And>d. args_op (?R d) = OpRestore \<or> args_op (?R d) = OpTransit"
    by (simp add: restore_args_def)
  have opT: "\<And>d. args_op (?T d) = OpRestore \<or> args_op (?T d) = OpTransit"
    by (simp add: transit_args_def)
  have opRn: "args_op ?Rn = OpRestore \<or> args_op ?Rn = OpTransit"
    by (simp add: restore_args_def)
  have opTn: "args_op ?Tn = OpRestore \<or> args_op ?Tn = OpTransit"
    by (simp add: transit_args_def)
  have c1: "main store_env (?R (ascii ''abc'')) one_archived =
              Some (Inl (AssertionError ''--days must be set to an integer''),
                    one_archived\<lparr>trace := trace one_archived @ prelude (?R (ascii ''abc''))\<rparr>)"
    using days_validation[OF opR, of "ascii ''abc''" store_env one_archived] isdigit_abc
    by (simp add: restore_args_def)
  have c2: "main store_env (?R [178]) one_archived =
              Some (Inl (ValueError ''invalid literal for int() with base 10''),
                    one_archived\<lparr>trace := trace one_archived @ prelude (?R [178])\<rparr>)"
    using days_validation[OF opR, of "[178]" store_env one_archived,
            THEN conjunct2, THEN conjunct2, THEN conjunct1]
          isdigit_superscript_2
    by (simp add: restore_args_def)
  have c3: "\<not> (\<exists>n. int_str [178] = Inr n)"
    using days_validation[OF opR, of "[178]" store_env one_archived,
            THEN conjunct2, THEN conjunct1]
          isdigit_superscript_2
    by (simp add: restore_args_def)
  have c4: "main store_env ?Rn one_archived =
              Some (Inl (AssertionError ''--tier must be set''),
                    one_archived\<lparr>trace := trace one_archived @ prelude ?Rn
                      @ [Log Debug (Msg (''Restore retrieval days: '' @ str_int 5))]\<rparr>)"
    using days_validation[OF opRn, of store_env one_archived,
            THEN conjunct2, THEN conjunct2, THEN conjunct2, rule_format,
            of "ascii ''5''" 5]
          isdigit_5
    by (simp add: restore_args_def)
  have c5: "main store_env ?Tn one_archived =
              Some (Inl (AssertionError ''--storage-class must be set''),
                    one_archived\<lparr>trace := trace one_archived @ prelude ?Tn
                      @ [Log Debug (Msg (''Restore retrieval days: '' @ str_int 5)),
                         Log Debug (Msg (''Restore retrieval tier: '' @ Tier_str Standard))]\<rparr>)"
    using days_validation[OF opTn, of store_env one_archived,
            THEN conjunct2, THEN conjunct2, THEN conjunct2, rule_format,
            of "ascii ''5''" 5]
          isdigit_5
    by (simp add: transit_args_def)
  have c6: "\<exists>r w'. main store_env (?R (ascii ''5'')) one_archived = Some (r, w')
              \<and> Log Debug (Msg (''Restore retrieval days: '' @ str_int 5)) \<in> set (trace w')
              \<and> ListObjectsV2 (args_bucket (?R (ascii ''5''))) (prefix_arg (?R (ascii ''5''))) None
                  \<in> set (trace w')"
    using days_validation[OF opR, of "ascii ''5''" store_env one_archived,
            THEN conjunct2, THEN conjunct2, THEN conjunct2, rule_format,
            of "ascii ''5''" 5, THEN conjunct2, THEN conjunct2, THEN conjunct2, rule_format,
            of Standard]
          isdigit_5 listing_restore_5
    by (simp add: restore_args_def prefix_arg_def)
  have c7: "\<exists>r w'. main store_env (?T [1635]) one_archived = Some (r, w')
              \<and> Log Debug (Msg (''Restore retrieval days: '' @ str_int 3)) \<in> set (trace w')
              \<and> ListObjectsV2 (args_bucket (?T [1635])) (prefix_arg (?T [1635])) None
                  \<in> set (trace w')"
    using days_validation[OF opT, of "[1635]" store_env one_archived,
            THEN conjunct2, THEN conjunct2, THEN conjunct2, rule_format,
            of "[1635]" 3, THEN conjunct2, THEN conjunct2, THEN conjunct2, rule_format,
            of Standard]
          isdigit_arabic_3 listing_transit_3 poll_transit_3
    by (simp add: transit_args_def prefix_arg_def)
  from c1 c2 c3 c4 c5 c6 c7 show ?thesis
    by (simp add: prelude_def prefix_arg_def restore_args_def transit_args_def one_archived_def
          str_int_def str_nat_digit char_of_3 char_of_5)
qed


subsection \<open>Termination of the poll loop\<close>

lemma transit_keys_flag:
  "transit_keys s3 bucket keys sc has w =
     (case transit_keys s3 bucket keys sc False w of
        (Inl e, w') \<Rightarrow> (Inl e, w')
      | (Inr g, w') \<Rightarrow> (Inr (has \<or> g), w'))"
proof (induction keys arbitrary: has w)
  case Nil
  then show ?case by simp
next
  case (Cons key keys)
  obtain r w1 where k: "transit_key s3 bucket key sc w = (r, w1)"
    by (cases "transit_key s3 bucket key sc w")
  show ?case
  proof (cases r)
    case (Inl e)
    with k show ?thesis by simp
  next
    case (Inr p)
    show ?thesis
      using k Inr Cons.IH[of "has \<or> p" w1] Cons.IH[of p w1]
      by (auto split: prod.splits sum.splits)
  qed
qed

lemma transit_once_snoc:
  "transit_once s3 bucket (xs @ [key]) sc w =
     (case transit_once s3 bucket xs sc w of
        (Inl e, w') \<Rightarrow> (Inl e, w')
      | (Inr g, w') \<Rightarrow>
          (case transit_key s3 bucket key sc w' of
             (Inl e, w'') \<Rightarrow> (Inl e, w'')
           | (Inr p, w'') \<Rightarrow> (Inr (g \<or> p), w'')))"
  by (simp add: transit_once_def transit_keys_append split: prod.splits sum.splits)

lemma pending_key_exists:
  "m \<le> length keys \<Longrightarrow> transit_once s3 bucket (take m keys) sc w = (Inr True, w')
     \<Longrightarrow> \<exists>i<m. pends s3 bucket keys sc w i"
proof (induction m arbitrary: w')
  case 0
  then show ?case by (simp add: transit_once_def)
next
  case (Suc m)
  then have lt: "m < length keys" by simp
  have tk: "take (Suc m) keys = take m keys @ [keys ! m]"
    using lt by (simp add: take_Suc_conv_app_nth)
  obtain r w1 where o: "transit_once s3 bucket (take m keys) sc w = (r, w1)"
    by (cases "transit_once s3 bucket (take m keys) sc w")
  obtain q w2 where k: "transit_key s3 bucket (keys ! m) sc w1 = (q, w2)"
    by (cases "transit_key s3 bucket (keys ! m) sc w1")
  from Suc.prems(2) o k obtain g p where gp: "r = Inr g" "q = Inr p" "g \<or> p"
    unfolding tk transit_once_snoc by (cases r; cases q) auto
  show ?case
  proof (cases g)
    case True
    with o gp(1) Suc.IH[of w1] lt obtain i where "i < m" "pends s3 bucket keys sc w i"
      by auto
    then show ?thesis by (auto intro: less_SucI)
  next
    case False
    with gp have "p" by simp
    with o k gp(2) have "pends s3 bucket keys sc w m"
      by (simp add: pends_def)
    then show ?thesis by auto
  qed
qed

lemma quiet_cycle_exists:
  assumes "\<forall>i<length keys. finite {m. pends s3 bucket keys sc (cycle_start s3 bucket keys sc poll w m) i}"
  shows "\<exists>N. fst (transit_once s3 bucket keys sc (cycle_start s3 bucket keys sc poll w N)) \<noteq> Inr True"
proof -
  let ?A = "\<Union>i\<in>{..<length keys}. {m. pends s3 bucket keys sc (cycle_start s3 bucket keys sc poll w m) i}"
  have "finite ?A" using assms by auto
  then obtain N where N: "N \<notin> ?A"
    using ex_new_if_finite[OF infinite_UNIV_nat] by blast
  have "fst (transit_once s3 bucket keys sc (cycle_start s3 bucket keys sc poll w N)) \<noteq> Inr True"
  proof
    assume "fst (transit_once s3 bucket keys sc (cycle_start s3 bucket keys sc poll w N)) = Inr True"
    then have "transit_once s3 bucket (take (length keys) keys) sc (cycle_start s3 bucket keys sc poll w N)
                 = (Inr True, snd (transit_once s3 bucket keys sc (cycle_start s3 bucket keys sc poll w N)))"
      by (simp add: prod_eq_iff)
    from pending_key_exists[OF _ this] N show False by auto
  qed
  then show ?thesis ..
qed

lemma quiet_cycle_ends_loop:
  "fst (transit_once s3 bucket keys sc (cycle_start s3 bucket keys sc poll w N)) \<noteq> Inr True
     \<Longrightarrow> \<exists>y. transit_loop s3 bucket keys sc poll n w = Some y"
proof (induction N arbitrary: w n)
  case 0
  obtain r w1 where o: "transit_once s3 bucket keys sc w = (r, w1)"
    by (cases "transit_once s3 bucket keys sc w")
  with 0 show ?case
    by (subst transit_loop.simps) (auto split: sum.splits)
next
  case (Suc N)
  obtain r w1 where o: "transit_once s3 bucket keys sc w = (r, w1)"
    by (cases "transit_once s3 bucket keys sc w")
  obtain x w2 where s: "time_sleep s3 poll w1 = (x, w2)"
    by (cases "time_sleep s3 poll w1")
  from Suc.prems o s
  have "fst (transit_once s3 bucket keys sc (cycle_start s3 bucket keys sc poll w2 N)) \<noteq> Inr True"
    by simp
  from Suc.IH[OF this, of "Suc n"] obtain y where
    "transit_loop s3 bucket keys sc poll (Suc n) w2 = Some y" by auto
  with o s show ?case
    by (subst transit_loop.simps) (cases y, auto split: sum.splits)
qed

text \<open>
  C2. A poll cycle in which no key answers with \<open>InvalidObjectState\<close> ends the loop with
  success, in the world that cycle leaves, so without a further sleep.  If every key of the
  batch pends in only finitely many cycles, \<open>transit_glacier_objects\<close> returns.  In the
  scenario of two keys, the first refused once and the second copied at once, the loop runs
  exactly 2 cycles (the counter is a ghost of the model) and sleeps once.
\<close>

theorem poll_terminates:
  "(transit_once s3 bucket keys storage_class w = (Inr False, w')
      \<longrightarrow> transit_loop s3 bucket keys storage_class poll_seconds n w = Some (Inr (), Suc n, w'))
   \<and> ((\<forall>i<length keys.
          finite {m. pends s3 bucket keys storage_class
                       (cycle_start s3 bucket keys storage_class poll_seconds w m) i})
      \<longrightarrow> (\<exists>y. transit_glacier_objects s3 bucket keys storage_class poll_seconds w = Some y))
   \<and> transit_glacier_objects store_env ''b'' [''k1'', ''k2''] StandardClass 3600 two_keys
       = Some (Inr (), 2, two_keys_final)"
proof (intro conjI impI)
  assume "transit_once s3 bucket keys storage_class w = (Inr False, w')"
  then show "transit_loop s3 bucket keys storage_class poll_seconds n w = Some (Inr (), Suc n, w')"
    by (subst transit_loop.simps) simp
next
  assume "\<forall>i<length keys.
          finite {m. pends s3 bucket keys storage_class
                       (cycle_start s3 bucket keys storage_class poll_seconds w m) i}"
  from quiet_cycle_exists[OF this] obtain N where
    "fst (transit_once s3 bucket keys storage_class
            (cycle_start s3 bucket keys storage_class poll_seconds w N)) \<noteq> Inr True" ..
  from quiet_cycle_ends_loop[OF this]
  show "\<exists>y. transit_glacier_objects s3 bucket keys storage_class poll_seconds w = Some y"
    by (simp add: transit_glacier_objects_def)
next
  show "transit_glacier_objects store_env ''b'' [''k1'', ''k2''] StandardClass 3600 two_keys
       = Some (Inr (), 2, two_keys_final)"
    by (rule two_keys_run)
qed

lemma cycle_start_add:
  "cycle_start s3 bucket keys sc poll w (a + b) =
     cycle_start s3 bucket keys sc poll (cycle_start s3 bucket keys sc poll w a) b"
  by (induction a arbitrary: w) simp_all

lemma both_standard_cycle:
  "pstate w = both_standard \<Longrightarrow>
     pstate (snd (time_sleep store_env 3600
        (snd (transit_once store_env ''b'' [''k1'', ''k2''] StandardClass w)))) = both_standard"
  by (simp add: run_simps both_standard_def)

lemma both_standard_stays:
  "pstate w = both_standard \<Longrightarrow>
     pstate (cycle_start store_env ''b'' [''k1'', ''k2''] StandardClass 3600 w m) = both_standard"
  by (induction m arbitrary: w) (simp_all add: both_standard_cycle)

lemma both_standard_quiet:
  "pstate w = both_standard \<Longrightarrow> i < 2 \<Longrightarrow>
     \<not> pends store_env ''b'' [''k1'', ''k2''] StandardClass w i"
  by (auto simp add: less_2_cases_iff pends_def run_simps both_standard_def)

lemma two_keys_after_two:
  "pstate (cycle_start store_env ''b'' [''k1'', ''k2''] StandardClass 3600 two_keys (Suc (Suc 0)))
     = both_standard"
  by (simp add: run_simps both_standard_def two_keys_def)

lemma two_keys_pends_finite:
  "\<forall>i<length [''k1'', ''k2''].
     finite {m. pends store_env ''b'' [''k1'', ''k2''] StandardClass
                  (cycle_start store_env ''b'' [''k1'', ''k2''] StandardClass 3600 two_keys m) i}"
proof (intro allI impI)
  fix i assume "i < length [''k1'', ''k2'']"
  then have i: "i < 2" by simp
  have "{m. pends store_env ''b'' [''k1'', ''k2''] StandardClass
                  (cycle_start store_env ''b'' [''k1'', ''k2''] StandardClass 3600 two_keys m) i}
          \<subseteq> {..<2}"
  proof (rule subsetI, rule ccontr)
    fix m
    assume p: "m \<in> {m. pends store_env ''b'' [''k1'', ''k2''] StandardClass
                  (cycle_start store_env ''b'' [''k1'', ''k2''] StandardClass 3600 two_keys m) i}"
       and "m \<notin> {..<2}"
    then have "m = Suc (Suc 0) + (m - 2)" by simp
    then have "pstate (cycle_start store_env ''b'' [''k1'', ''k2''] StandardClass 3600 two_keys m)
                 = both_standard"
      using both_standard_stays[OF two_keys_after_two, of "m - 2"]
            cycle_start_add[of store_env "''b''" "[''k1'', ''k2'']" StandardClass 3600 two_keys
                               "Suc (Suc 0)" "m - 2"]
      by simp
    from both_standard_quiet[OF this i] p show False by simp
  qed
  then show "finite {m. pends store_env ''b'' [''k1'', ''k2''] StandardClass
                  (cycle_start store_env ''b'' [''k1'', ''k2''] StandardClass 3600 two_keys m) i}"
    by (rule finite_subset) simp
qed

lemma two_keys_second_cycle:
  "transit_once store_env ''b'' [''k1'', ''k2''] StandardClass two_keys_slept
     = (Inr False, two_keys_final)"
  by (simp add: two_keys_slept_def run_simps two_keys_def two_keys_final_def)

text \<open>
  The two-key scenario meets both hypotheses: its second cycle has no pending key, and no
  key pends from the third cycle on.
\<close>

theorem poll_terminates_witness:
  "transit_loop store_env ''b'' [''k1'', ''k2''] StandardClass 3600 1 two_keys_slept
     = Some (Inr (), Suc 1, two_keys_final)
   \<and> (\<exists>y. transit_glacier_objects store_env ''b'' [''k1'', ''k2''] StandardClass 3600 two_keys
           = Some y)"
  using poll_terminates[of store_env "''b''" "[''k1'', ''k2'']" StandardClass two_keys_slept
                           two_keys_final 3600 1]
        poll_terminates[of store_env "''b''" "[''k1'', ''k2'']" StandardClass two_keys
                           two_keys_final 3600 0]
        two_keys_second_cycle two_keys_pends_finite
  by blast

end
